theory Spec2Isabelle
  imports Complex_Main
begin

section \<open>The annotation canvas (component ImageDrawingCanvas)\<close>

text \<open>
  The component keeps its state in React state variables and in one HTML canvas. Every
  handler is modelled as a function from the state it sees (the values of the render
  that installed it) to the state after the handler and its state updates. JavaScript
  numbers are modelled as real numbers: rounding, infinities and NaN are outside the
  model. The canvas is modelled by its drawing state (the properties that
  \<^verbatim>\<open>save\<close>/\<^verbatim>\<open>restore\<close> keep), its current path (the path commands since the
  last \<^verbatim>\<open>beginPath\<close>) and its content; the content is the sequence of painting
  operations that produced it, each with the drawing state it was painted with, so that
  equal contents have equal pixels. A text that the user types is a JavaScript string: a
  list of UTF-16 code units.
\<close>

subsection \<open>Types\<close>

datatype Tool = Pen | Highlighter | Line | Arrow | Rect | Circle | Text | Eraser | Pan

datatype LineStyle = Solid | Dashed | Dotted

datatype CompositeOp = SourceOver | DestinationOut

datatype Font = SansSerif10 | BoldArialPx real

type_synonym point = "real \<times> real"

type_synonym jsstring = "nat list"

datatype path_cmd =
    MoveTo real real
  | LineTo real real
  | Arc real real real real real
  | ClosePath

text \<open>The drawing state of a 2D context.\<close>

record ctx_style =
  strokeStyle :: string
  fillStyle :: string
  ctx_lineWidth :: real
  lineCap :: string
  lineJoin :: string
  globalAlpha :: real
  lineDash :: "real list"
  globalCompositeOperation :: CompositeOp
  font :: Font
  textAlign :: string
  textBaseline :: string
  shadowColor :: string
  shadowBlur :: real

datatype draw_op =
    Stroke "path_cmd list"
  | Fill "path_cmd list"
  | FillRect real real real real
  | StrokeRect real real real real
  | StrokeText jsstring real real
  | FillText jsstring real real

type_synonym paint = "ctx_style \<times> draw_op"

type_synonym ImageData = "paint list"

text \<open>The canvas element with its 2D context.\<close>

record canvas =
  cv_width :: real
  cv_height :: real
  style :: ctx_style
  saved :: "ctx_style list"
  path :: "path_cmd list"
  surface :: ImageData

text \<open>What the handlers read of the viewport container (its bounding rectangle and
  client size).\<close>

record container =
  rect_left :: real
  rect_top :: real
  clientWidth :: real
  clientHeight :: real

record text_input =
  isVisible :: bool
  text_x :: real
  text_y :: real
  text_value :: jsstring
  rotation :: "real option"

record mouse_event =
  clientX :: real
  clientY :: real
  button :: nat

record wheel_event = mouse_event +
  deltaY :: real

text \<open>The state variables of the component, and its two DOM references:
  \<open>containerRef\<close> is \<open>None\<close> and \<open>canvasRef\<close> is \<open>False\<close> while the reference is null.
  The canvas object itself is held by \<open>ctx\<close>.\<close>

record session =
  containerRef :: "container option"
  canvasRef :: bool
  bgImageUrl :: string
  dimensions :: "real \<times> real"
  zoom :: real
  pan :: point
  isPanning :: bool
  lastPanPoint :: point
  ctx :: "canvas option"
  history :: "ImageData list"
  redoStack :: "ImageData list"
  tool :: Tool
  color :: string
  lineWidth :: real
  opacity :: real
  lineStyle :: LineStyle
  isFilled :: bool
  isDrawing :: bool
  startPos :: "point option"
  snapshot :: "ImageData option"
  description :: string
  textInput :: text_input

subsection \<open>The 2D context\<close>

text \<open>A new context: the initial drawing state of the canvas standard, an empty path and a
  fully transparent content.\<close>

definition default_style :: ctx_style where
  "default_style = \<lparr> strokeStyle = ''#000000'', fillStyle = ''#000000'', ctx_lineWidth = 1,
     lineCap = ''butt'', lineJoin = ''miter'', globalAlpha = 1, lineDash = [],
     globalCompositeOperation = SourceOver, font = SansSerif10, textAlign = ''start'',
     textBaseline = ''alphabetic'', shadowColor = ''rgba(0, 0, 0, 0)'', shadowBlur = 0 \<rparr>"

definition emptyData :: ImageData where
  "emptyData = []"

definition new_canvas :: "real \<Rightarrow> real \<Rightarrow> canvas" where
  "new_canvas w h = \<lparr> cv_width = w, cv_height = h, style = default_style, saved = [],
     path = [], surface = emptyData \<rparr>"

text \<open>The setters of the context ignore a value outside the property's range.\<close>

definition set_globalAlpha :: "real \<Rightarrow> ctx_style \<Rightarrow> ctx_style" where
  "set_globalAlpha v st = (if 0 \<le> v \<and> v \<le> 1 then st\<lparr>globalAlpha := v\<rparr> else st)"

definition set_lineWidth :: "real \<Rightarrow> ctx_style \<Rightarrow> ctx_style" where
  "set_lineWidth v st = (if 0 < v then st\<lparr>ctx_lineWidth := v\<rparr> else st)"

definition setLineDash :: "real list \<Rightarrow> ctx_style \<Rightarrow> ctx_style" where
  "setLineDash ds st =
     (if list_ex (\<lambda>d. d < 0) ds then st
      else st\<lparr>lineDash := (if even (length ds) then ds else ds @ ds)\<rparr>)"

definition set_shadowBlur :: "real \<Rightarrow> ctx_style \<Rightarrow> ctx_style" where
  "set_shadowBlur v st = (if 0 \<le> v then st\<lparr>shadowBlur := v\<rparr> else st)"

definition getImageData :: "canvas \<Rightarrow> ImageData" where
  "getImageData c = surface c"

definition putImageData :: "ImageData \<Rightarrow> canvas \<Rightarrow> canvas" where
  "putImageData img c = c\<lparr>surface := img\<rparr>"

definition clearAll :: "canvas \<Rightarrow> canvas" where
  "clearAll c = c\<lparr>surface := emptyData\<rparr>"

definition beginPath :: "canvas \<Rightarrow> canvas" where
  "beginPath c = c\<lparr>path := []\<rparr>"

definition moveTo :: "real \<Rightarrow> real \<Rightarrow> canvas \<Rightarrow> canvas" where
  "moveTo px py c = c\<lparr>path := path c @ [MoveTo px py]\<rparr>"

definition lineTo :: "real \<Rightarrow> real \<Rightarrow> canvas \<Rightarrow> canvas" where
  "lineTo px py c = c\<lparr>path := path c @ [LineTo px py]\<rparr>"

definition arc :: "real \<Rightarrow> real \<Rightarrow> real \<Rightarrow> real \<Rightarrow> real \<Rightarrow> canvas \<Rightarrow> canvas" where
  "arc px py radius a0 a1 c = c\<lparr>path := path c @ [Arc px py radius a0 a1]\<rparr>"

definition closePath :: "canvas \<Rightarrow> canvas" where
  "closePath c = c\<lparr>path := path c @ [ClosePath]\<rparr>"

definition save :: "canvas \<Rightarrow> canvas" where
  "save c = c\<lparr>saved := style c # saved c\<rparr>"

definition restore :: "canvas \<Rightarrow> canvas" where
  "restore c = (case saved c of [] \<Rightarrow> c | st # rest \<Rightarrow> c\<lparr>style := st, saved := rest\<rparr>)"

definition with_style :: "(ctx_style \<Rightarrow> ctx_style) \<Rightarrow> canvas \<Rightarrow> canvas" where
  "with_style f c = c\<lparr>style := f (style c)\<rparr>"

definition paint_op :: "draw_op \<Rightarrow> canvas \<Rightarrow> canvas" where
  "paint_op d c = c\<lparr>surface := surface c @ [(style c, d)]\<rparr>"

definition stroke :: "canvas \<Rightarrow> canvas" where
  "stroke c = paint_op (Stroke (path c)) c"

definition fill :: "canvas \<Rightarrow> canvas" where
  "fill c = paint_op (Fill (path c)) c"

definition fillRect :: "real \<Rightarrow> real \<Rightarrow> real \<Rightarrow> real \<Rightarrow> canvas \<Rightarrow> canvas" where
  "fillRect px py w h c = paint_op (FillRect px py w h) c"

definition strokeRect :: "real \<Rightarrow> real \<Rightarrow> real \<Rightarrow> real \<Rightarrow> canvas \<Rightarrow> canvas" where
  "strokeRect px py w h c = paint_op (StrokeRect px py w h) c"

text \<open>What a path is made of when it is stroked or filled, as the canvas standard builds
  it from the commands: a \<^verbatim>\<open>lineTo\<close> on a path without a current point only sets that
  point, as a \<^verbatim>\<open>moveTo\<close> does, and a subpath of one point has no piece. The state of
  the traversal is the current point and the first point of the current subpath.\<close>

datatype piece = Segment point point | ArcPiece real real real real real

fun pieces_from :: "(point \<times> point) option \<Rightarrow> path_cmd list \<Rightarrow> piece list" where
  "pieces_from st [] = []"
| "pieces_from st (MoveTo px py # cs) = pieces_from (Some ((px, py), (px, py))) cs"
| "pieces_from None (LineTo px py # cs) = pieces_from (Some ((px, py), (px, py))) cs"
| "pieces_from (Some (cur, start)) (LineTo px py # cs) =
     Segment cur (px, py) # pieces_from (Some ((px, py), start)) cs"
| "pieces_from None (Arc px py r a0 a1 # cs) =
     ArcPiece px py r a0 a1
       # pieces_from (Some ((px + r * cos a1, py + r * sin a1),
                             (px + r * cos a0, py + r * sin a0))) cs"
| "pieces_from (Some (cur, start)) (Arc px py r a0 a1 # cs) =
     Segment cur (px + r * cos a0, py + r * sin a0) # ArcPiece px py r a0 a1
       # pieces_from (Some ((px + r * cos a1, py + r * sin a1), start)) cs"
| "pieces_from None (ClosePath # cs) = pieces_from None cs"
| "pieces_from (Some (cur, start)) (ClosePath # cs) =
     Segment cur start # pieces_from (Some (start, start)) cs"

definition path_pieces :: "path_cmd list \<Rightarrow> piece list" where
  "path_pieces cs = pieces_from None cs"

text \<open>Compositing of the alpha channel at one pixel that a painting operation covers fully,
  as the canvas standard gives it: \<open>as\<close> is the alpha of the paint (for an opaque colour,
  \<open>globalAlpha\<close>) and \<open>ad\<close> the alpha already on the canvas.\<close>

definition composite_alpha :: "CompositeOp \<Rightarrow> real \<Rightarrow> real \<Rightarrow> real" where
  "composite_alpha mode as ad =
     (case mode of SourceOver \<Rightarrow> as + ad * (1 - as) | DestinationOut \<Rightarrow> ad * (1 - as))"

subsection \<open>Initialisation\<close>

text \<open>The initial values of the state variables. The two DOM references are what the
  rendered page provides.\<close>

definition mount_state :: "container option \<Rightarrow> bool \<Rightarrow> session" where
  "mount_state cont cnv = \<lparr> containerRef = cont, canvasRef = cnv, bgImageUrl = '''',
     dimensions = (0, 0), zoom = 1, pan = (0, 0), isPanning = False, lastPanPoint = (0, 0),
     ctx = None, history = [], redoStack = [], tool = Pen, color = ''#EF4444'',
     lineWidth = 3, opacity = 1, lineStyle = Solid, isFilled = False, isDrawing = False,
     startPos = None, snapshot = None, description = '''',
     textInput = \<lparr> isVisible = False, text_x = 0, text_y = 0, text_value = [],
       rotation = None \<rparr> \<rparr>"

text \<open>The effect that loads the image: the object URL is stored at once, the rest happens
  in \<^verbatim>\<open>img.onload\<close>. \<open>w\<close> and \<open>h\<close> are the natural size of the decoded image and
  \<open>has2d\<close> tells whether \<^verbatim>\<open>getContext('2d')\<close> returned a context. The result is
  \<open>None\<close> for an image with a side of length zero, where the JavaScript divides by zero.\<close>

definition onload :: "string \<Rightarrow> real \<Rightarrow> real \<Rightarrow> bool \<Rightarrow> session \<Rightarrow> session option" where
  "onload url w h has2d s0 =
     (let s = s0\<lparr>bgImageUrl := url\<rparr> in
      case containerRef s of
        None \<Rightarrow> Some s
      | Some cont \<Rightarrow>
          if \<not> canvasRef s then Some s
          else if w \<le> 0 \<or> h \<le> 0 then None
          else
            let maxWidth = clientWidth cont - 40;
                maxHeight = 600;
                scaleFit = min (maxWidth / w) (maxHeight / h);
                s1 = s\<lparr>dimensions := (w, h)\<rparr>;
                s2 = (if scaleFit < 1
                      then s1\<lparr>zoom := scaleFit,
                             pan := ((clientWidth cont - w * scaleFit) / 2,
                                     (clientHeight cont - h * scaleFit) / 2)\<rparr>
                      else
                        let offsetX = (clientWidth cont - w) / 2;
                            offsetY = (clientHeight cont - h) / 2
                        in s1\<lparr>pan := (if offsetX > 0 then offsetX else 0,
                                      if offsetY > 0 then offsetY else 0)\<rparr>)
            in if has2d
               then Some (s2\<lparr>ctx := Some (new_canvas w h),
                              history := [getImageData (new_canvas w h)]\<rparr>)
               else Some s2)"

subsection \<open>Zoom and pan\<close>

definition handleZoom :: "real \<Rightarrow> session \<Rightarrow> session" where
  "handleZoom delta s = s\<lparr>zoom := min (max 0.1 (zoom s + delta)) 5\<rparr>"

definition handleWheel :: "'a wheel_event_scheme \<Rightarrow> session \<Rightarrow> session" where
  "handleWheel e s =
     (let scaleAmount = - deltaY e * 0.001;
          newZoom = min (max 0.1 (zoom s + scaleAmount)) 5
      in case containerRef s of
           None \<Rightarrow> s
         | Some rect \<Rightarrow>
             let mouseX = clientX e - rect_left rect;
                 mouseY = clientY e - rect_top rect;
                 worldX = (mouseX - fst (pan s)) / zoom s;
                 worldY = (mouseY - snd (pan s)) / zoom s;
                 newPanX = mouseX - worldX * newZoom;
                 newPanY = mouseY - worldY * newZoom
             in s\<lparr>zoom := newZoom, pan := (newPanX, newPanY)\<rparr>)"

text \<open>The position of a mouse event in the coordinates of the canvas (world
  coordinates).\<close>

definition getPos :: "'a mouse_event_scheme \<Rightarrow> session \<Rightarrow> point" where
  "getPos e s =
     (case containerRef s of
        None \<Rightarrow> (0, 0)
      | Some rect \<Rightarrow>
          let cX = clientX e - rect_left rect;
              cY = clientY e - rect_top rect
          in ((cX - fst (pan s)) / zoom s, (cY - snd (pan s)) / zoom s))"

text \<open>The layer that holds the image and the canvas is rendered with the CSS transform
  \<^verbatim>\<open>translate(pan.x, pan.y) scale(zoom)\<close> and origin top left inside the container:
  a point of the canvas appears at this position of the container.\<close>

definition layer_transform :: "session \<Rightarrow> point \<Rightarrow> point" where
  "layer_transform s p = (fst p * zoom s + fst (pan s), snd p * zoom s + snd (pan s))"

subsection \<open>History\<close>

definition saveState :: "session \<Rightarrow> session" where
  "saveState s =
     (case ctx s of
        None \<Rightarrow> s
      | Some c \<Rightarrow>
          if \<not> canvasRef s then s
          else
            let imageData = getImageData c;
                newHist = history s @ [imageData]
            in s\<lparr>history := (if length newHist > 20 then tl newHist else newHist),
                  redoStack := []\<rparr>)"

definition handleUndo :: "session \<Rightarrow> session" where
  "handleUndo s =
     (case ctx s of
        None \<Rightarrow> s
      | Some c \<Rightarrow>
          if length (history s) \<le> 1 then s
          else
            let current = history s ! (length (history s) - 1);
                previous = history s ! (length (history s) - 2)
            in s\<lparr>redoStack := current # redoStack s,
                  history := butlast (history s),
                  ctx := Some (putImageData previous c)\<rparr>)"

definition handleRedo :: "session \<Rightarrow> session" where
  "handleRedo s =
     (case ctx s of
        None \<Rightarrow> s
      | Some c \<Rightarrow>
          (case redoStack s of
             [] \<Rightarrow> s
           | next # rest \<Rightarrow>
               s\<lparr>redoStack := rest,
                 history := history s @ [next],
                 ctx := Some (putImageData next c)\<rparr>))"

definition clearCanvas :: "session \<Rightarrow> session" where
  "clearCanvas s =
     (case ctx s of
        None \<Rightarrow> s
      | Some c \<Rightarrow> if \<not> canvasRef s then s else saveState (s\<lparr>ctx := Some (clearAll c)\<rparr>))"

subsection \<open>Drawing styles\<close>

definition applyStyles :: "session \<Rightarrow> canvas \<Rightarrow> canvas" where
  "applyStyles s context =
     (let c1 = with_style (\<lambda>st. st\<lparr>strokeStyle := color s\<rparr>) context;
          c2 = with_style (\<lambda>st. st\<lparr>fillStyle := color s\<rparr>) c1;
          c3 = with_style (set_lineWidth (lineWidth s)) c2;
          c4 = with_style (\<lambda>st. st\<lparr>lineCap := ''round''\<rparr>) c3;
          c5 = with_style (\<lambda>st. st\<lparr>lineJoin := ''round''\<rparr>) c4;
          c6 = with_style (set_globalAlpha (opacity s)) c5;
          c7 = (if lineStyle s = Dashed
                then with_style (setLineDash [lineWidth s * 3, lineWidth s * 2]) c6
                else if lineStyle s = Dotted
                then with_style (setLineDash [lineWidth s, lineWidth s * 2]) c6
                else with_style (setLineDash []) c6)
      in if tool s = Highlighter then
           with_style (\<lambda>st. st\<lparr>globalCompositeOperation := SourceOver\<rparr>)
             (with_style (setLineDash [])
               (with_style (\<lambda>st. st\<lparr>strokeStyle :=
                    (if color s = ''#FFFFFF'' then ''#FFFF00'' else color s)\<rparr>)
                 (with_style (set_lineWidth 20)
                   (with_style (set_globalAlpha 0.3) c7))))
         else if tool s = Eraser then
           with_style (\<lambda>st. st\<lparr>globalCompositeOperation := DestinationOut\<rparr>)
             (with_style (setLineDash [])
               (with_style (set_globalAlpha 1)
                 (with_style (set_lineWidth (lineWidth s * 4)) c7)))
         else with_style (\<lambda>st. st\<lparr>globalCompositeOperation := SourceOver\<rparr>) c7)"

subsection \<open>Text overlay\<close>

text \<open>An ASCII text as a JavaScript string.\<close>

definition js :: "string \<Rightarrow> jsstring" where
  "js t = map of_char t"

text \<open>\<^verbatim>\<open>String.prototype.trim\<close> removes white space and line terminators from both
  ends: U+0009 to U+000D, U+0020, U+00A0, U+1680, U+2000 to U+200A, U+2028, U+2029, U+202F,
  U+205F, U+3000 and U+FEFF.\<close>

definition is_space :: "nat \<Rightarrow> bool" where
  "is_space cu =
     (cu \<in> set [9, 10, 11, 12, 13, 32, 160, 5760, 8232, 8233, 8239, 8287, 12288, 65279]
      \<or> (8192 \<le> cu \<and> cu \<le> 8202))"

definition trim :: "jsstring \<Rightarrow> jsstring" where
  "trim v = rev (dropWhile is_space (rev (dropWhile is_space v)))"

text \<open>Typing in the text field replaces the text of the overlay.\<close>

definition onChange :: "jsstring \<Rightarrow> session \<Rightarrow> session" where
  "onChange v s = s\<lparr>textInput := (textInput s)\<lparr>text_value := v\<rparr>\<rparr>"

definition commitText :: "session \<Rightarrow> session" where
  "commitText s =
     (let discard =
            (let s1 = s\<lparr>textInput := (textInput s)\<lparr>isVisible := False\<rparr>\<rparr>
             in if tool s = Line then saveState s1 else s1)
      in case ctx s of
        None \<Rightarrow> discard
      | Some c0 \<Rightarrow>
          if \<not> isVisible (textInput s) \<or> trim (text_value (textInput s)) = [] then discard
          else
            let t = textInput s;
                c1 = save c0;
                c2 = with_style (\<lambda>st. st\<lparr>fillStyle := color s\<rparr>) c1;
                c3 = with_style (\<lambda>st. st\<lparr>font := BoldArialPx (max 16 (lineWidth s * 3))\<rparr>) c2;
                c4 = with_style (\<lambda>st. st\<lparr>textAlign := ''center''\<rparr>) c3;
                c5 = with_style (\<lambda>st. st\<lparr>textBaseline := ''middle''\<rparr>) c4;
                c6 = with_style (set_globalAlpha 1) c5;
                c7 = with_style (\<lambda>st. st\<lparr>globalCompositeOperation := SourceOver\<rparr>) c6;
                c8 = with_style (\<lambda>st. st\<lparr>shadowColor := ''rgba(255,255,255,1)''\<rparr>) c7;
                c9 = with_style (set_shadowBlur 4) c8;
                c10 = with_style (set_lineWidth 3) c9;
                c11 = with_style (\<lambda>st. st\<lparr>strokeStyle := ''white''\<rparr>) c10;
                c12 = paint_op (StrokeText (text_value t) (text_x t) (text_y t)) c11;
                c13 = with_style (set_shadowBlur 0) c12;
                c14 = paint_op (FillText (text_value t) (text_x t) (text_y t)) c13;
                c15 = restore c14;
                s1 = saveState (s\<lparr>ctx := Some c15\<rparr>)
            in s1\<lparr>textInput := t\<lparr>isVisible := False, text_value := []\<rparr>\<rparr>)"

definition handleInputKeyDown :: "string \<Rightarrow> session \<Rightarrow> session" where
  "handleInputKeyDown key s =
     (if key = ''Enter'' then commitText s
      else if key = ''Escape'' then
        let s1 = s\<lparr>textInput := (textInput s)\<lparr>isVisible := False\<rparr>\<rparr>
        in if tool s = Line then saveState s1 else s1
      else s)"

subsection \<open>Mouse handlers\<close>

definition handleMouseDown :: "'a mouse_event_scheme \<Rightarrow> session \<Rightarrow> session" where
  "handleMouseDown e s =
     (if tool s = Pan \<or> button e = 1
      then s\<lparr>isPanning := True, lastPanPoint := (clientX e, clientY e)\<rparr>
      else case ctx s of
        None \<Rightarrow> s
      | Some c \<Rightarrow>
          if \<not> canvasRef s then s
          else
            let (px, py) = getPos e s
            in if isVisible (textInput s) then commitText s
               else if tool s = Text
               then s\<lparr>textInput := \<lparr> isVisible = True, text_x = px, text_y = py,
                      text_value = [], rotation = None \<rparr>\<rparr>
               else s\<lparr>isDrawing := True,
                      startPos := Some (px, py),
                      snapshot := Some (getImageData c),
                      ctx := Some (moveTo px py (applyStyles s (beginPath c)))\<rparr>)"

text \<open>\<^verbatim>\<open>Math.atan2\<close> on real numbers.\<close>

definition atan2 :: "real \<Rightarrow> real \<Rightarrow> real" where
  "atan2 dy dx =
     (if 0 < dx then arctan (dy / dx)
      else if dx < 0 then (if 0 \<le> dy then arctan (dy / dx) + pi else arctan (dy / dx) - pi)
      else if 0 < dy then pi / 2
      else if dy < 0 then - pi / 2
      else 0)"

definition drawArrow :: "session \<Rightarrow> real \<Rightarrow> real \<Rightarrow> real \<Rightarrow> real \<Rightarrow> canvas \<Rightarrow> canvas" where
  "drawArrow s x1 y1 x2 y2 c =
     (let headLength = 15 + lineWidth s;
          angle = atan2 (y2 - y1) (x2 - x1);
          c1 = stroke (lineTo x2 y2 (moveTo x1 y1 c));
          c2 = moveTo x2 y2 (beginPath c1);
          c3 = lineTo (x2 - headLength * cos (angle - pi / 6))
                      (y2 - headLength * sin (angle - pi / 6)) c2;
          c4 = moveTo x2 y2 c3;
          c5 = lineTo (x2 - headLength * cos (angle + pi / 6))
                      (y2 - headLength * sin (angle + pi / 6)) c4
      in stroke c5)"

definition drawTHeads :: "session \<Rightarrow> real \<Rightarrow> real \<Rightarrow> real \<Rightarrow> real \<Rightarrow> canvas \<Rightarrow> canvas" where
  "drawTHeads s x1 y1 x2 y2 c =
     (let headSize = 8 + lineWidth s;
          angle = atan2 (y2 - y1) (x2 - x1);
          perpAngle = angle + pi / 2;
          c1 = moveTo (x1 + headSize * cos perpAngle) (y1 + headSize * sin perpAngle)
                 (beginPath c);
          c2 = stroke (lineTo (x1 - headSize * cos perpAngle) (y1 - headSize * sin perpAngle) c1);
          c3 = moveTo (x2 + headSize * cos perpAngle) (y2 + headSize * sin perpAngle)
                 (beginPath c2)
      in stroke (lineTo (x2 - headSize * cos perpAngle) (y2 - headSize * sin perpAngle) c3))"

definition handleMouseMove :: "'a mouse_event_scheme \<Rightarrow> session \<Rightarrow> session" where
  "handleMouseMove e s =
     (if isPanning s then
        let deltaX = clientX e - fst (lastPanPoint s);
            deltaY = clientY e - snd (lastPanPoint s)
        in s\<lparr>pan := (fst (pan s) + deltaX, snd (pan s) + deltaY),
             lastPanPoint := (clientX e, clientY e)\<rparr>
      else case (ctx s, startPos s, snapshot s) of
        (Some c, Some (sx, sy), Some snap) \<Rightarrow>
          if \<not> isDrawing s \<or> \<not> canvasRef s then s
          else
            let (px, py) = getPos e s;
                c1 = (if tool s \<in> set [Line, Arrow, Rect, Circle]
                      then putImageData snap c else c);
                c2 = applyStyles s (beginPath c1);
                c3 =
                  (case tool s of
                     Pen \<Rightarrow> stroke (lineTo px py c2)
                   | Highlighter \<Rightarrow> stroke (lineTo px py c2)
                   | Eraser \<Rightarrow> stroke (lineTo px py c2)
                   | Line \<Rightarrow>
                       drawTHeads s sx sy px py (stroke (lineTo px py (moveTo sx sy c2)))
                   | Rect \<Rightarrow>
                       let w = px - sx;
                           h = py - sy;
                           c2a = (if isFilled s
                                  then with_style (set_globalAlpha (opacity s))
                                         (fillRect sx sy w h
                                           (with_style (set_globalAlpha (opacity s * 0.3)) c2))
                                  else c2)
                       in strokeRect sx sy w h c2a
                   | Circle \<Rightarrow>
                       let radius = sqrt ((px - sx)\<^sup>2 + (py - sy)\<^sup>2);
                           c2a = arc sx sy radius 0 (2 * pi) (beginPath c2);
                           c2b = (if isFilled s
                                  then with_style (set_globalAlpha (opacity s))
                                         (fill (with_style (set_globalAlpha (opacity s * 0.3)) c2a))
                                  else c2a)
                       in stroke c2b
                   | Arrow \<Rightarrow> drawArrow s sx sy px py c2
                   | _ \<Rightarrow> c2)
            in s\<lparr>ctx := Some c3\<rparr>
      | _ \<Rightarrow> s)"

text \<open>\<^verbatim>\<open>Number.prototype.toFixed(1)\<close> for a number that is not negative: the nearest
  multiple of one tenth (the larger one of two), in decimal notation.\<close>

definition digit_char :: "nat \<Rightarrow> char" where
  "digit_char n = ''0123456789'' ! n"

fun decimal :: "nat \<Rightarrow> string" where
  "decimal n = (if n < 10 then [digit_char n] else decimal (n div 10) @ [digit_char (n mod 10)])"

declare decimal.simps [simp del]

definition toFixed1 :: "real \<Rightarrow> string" where
  "toFixed1 r = (let n = nat \<lfloor>r * 10 + 1 / 2\<rfloor> in decimal (n div 10) @ ''.'' @ [digit_char (n mod 10)])"

definition handleMouseUp :: "'a mouse_event_scheme \<Rightarrow> session \<Rightarrow> session" where
  "handleMouseUp e s =
     (if isPanning s then s\<lparr>isPanning := False\<rparr>
      else case (ctx s, startPos s) of
        (Some c, Some (sx, sy)) \<Rightarrow>
          if \<not> isDrawing s then s
          else
            let s1 = s\<lparr>isDrawing := False\<rparr>
            in if tool s = Line then
                 let (px, py) = getPos e s;
                     distancePx = sqrt ((px - sx)\<^sup>2 + (py - sy)\<^sup>2);
                     cm = toFixed1 (distancePx / 38);
                     midX = (sx + px) / 2;
                     midY = (sy + py) / 2
                 in s1\<lparr>textInput := \<lparr> isVisible = True, text_x = midX, text_y = midY,
                        text_value = js cm @ js '' cm'', rotation = None \<rparr>\<rparr>
               else if tool s = Pen \<or> tool s = Highlighter \<or> tool s = Eraser
               then saveState (s1\<lparr>ctx := Some (closePath c)\<rparr>)
               else saveState s1
      | _ \<Rightarrow> s)"

text \<open>The handlers that the rendered container and the text field install.\<close>

definition onMouseDown :: "mouse_event \<Rightarrow> session \<Rightarrow> session" where
  "onMouseDown = handleMouseDown"

definition onMouseMove :: "mouse_event \<Rightarrow> session \<Rightarrow> session" where
  "onMouseMove = handleMouseMove"

definition onMouseUp :: "mouse_event \<Rightarrow> session \<Rightarrow> session" where
  "onMouseUp = handleMouseUp"

definition onMouseLeave :: "mouse_event \<Rightarrow> session \<Rightarrow> session" where
  "onMouseLeave = handleMouseUp"

definition onBlur :: "session \<Rightarrow> session" where
  "onBlur = commitText"

subsection \<open>Export\<close>

text \<open>The offscreen canvas of the export: its size and what was drawn into it, in order.
  Its PNG encoding \<open>toDataURL\<close> is the browser's and a parameter here, as are whether the
  offscreen canvas gives a 2D context (\<open>has2d\<close>) and whether the image behind
  \<open>bgImageUrl\<close> loads (\<open>loads\<close>; the handler waits for it and never resumes when
  it does not). The result is the effect of the handler, \<open>None\<close> when it has none. The name
  of the downloaded file (which carries the time of the click) is left out.\<close>

datatype offscreen_op = DrawImage string real real real real | DrawCanvas ImageData real real

record offscreen =
  os_width :: real
  os_height :: real
  os_ops :: "offscreen_op list"

datatype save_action = Download | Attach

datatype save_effect = LinkClick string | OnSave string string

definition handleSave ::
  "(offscreen \<Rightarrow> string) \<Rightarrow> bool \<Rightarrow> bool \<Rightarrow> save_action \<Rightarrow> session \<Rightarrow> save_effect option"
  where
  "handleSave toDataURL has2d loads action s =
     (if \<not> canvasRef s \<or> fst (dimensions s) = 0 then None
      else
        let tempCanvas = \<lparr> os_width = fst (dimensions s), os_height = snd (dimensions s),
              os_ops = [] \<rparr>
        in if \<not> has2d then None
           else if \<not> loads then None
           else
             let t1 = tempCanvas\<lparr>os_ops := os_ops tempCanvas @
                        [DrawImage (bgImageUrl s) 0 0 (fst (dimensions s)) (snd (dimensions s))]\<rparr>;
                 annotations = (case ctx s of None \<Rightarrow> emptyData | Some c \<Rightarrow> getImageData c);
                 t2 = t1\<lparr>os_ops := os_ops t1 @ [DrawCanvas annotations 0 0]\<rparr>;
                 dataUrl = toDataURL t2
             in case action of
                  Download \<Rightarrow> Some (LinkClick dataUrl)
                | Attach \<Rightarrow> Some (OnSave dataUrl (description s)))"

subsection \<open>Sequences of user actions\<close>

text \<open>A committed drawing action: the gesture changes the content of the canvas in some way
  \<open>f\<close>, and its end calls \<open>saveState\<close>.\<close>

definition draw :: "(ImageData \<Rightarrow> ImageData) \<Rightarrow> session \<Rightarrow> session" where
  "draw f s = (case ctx s of None \<Rightarrow> s | Some c \<Rightarrow> s\<lparr>ctx := Some (c\<lparr>surface := f (surface c)\<rparr>)\<rparr>)"

definition commit :: "(ImageData \<Rightarrow> ImageData) \<Rightarrow> session \<Rightarrow> session" where
  "commit f s = saveState (draw f s)"

fun commits :: "(ImageData \<Rightarrow> ImageData) list \<Rightarrow> session \<Rightarrow> session" where
  "commits [] s = s"
| "commits (f # fs) s = commits fs (commit f s)"

text \<open>The content of the annotation canvas.\<close>

definition content :: "session \<Rightarrow> ImageData" where
  "content s = (case ctx s of None \<Rightarrow> emptyData | Some c \<Rightarrow> surface c)"

text \<open>The contents that a list of drawing actions produces one after the other, starting
  from the content \<open>x\<close>.\<close>

fun snaps :: "(ImageData \<Rightarrow> ImageData) list \<Rightarrow> ImageData \<Rightarrow> ImageData list" where
  "snaps [] x = []"
| "snaps (f # fs) x = f x # snaps fs (f x)"

subsection \<open>Example sessions\<close>

text \<open>A container of 1000 by 700 pixels at (100, 50) of the page, and the session after an
  image of 800 by 600 pixels has loaded in it.\<close>

definition demo_container :: container where
  "demo_container = \<lparr> rect_left = 100, rect_top = 50, clientWidth = 1000, clientHeight = 700 \<rparr>"

definition demo_session :: session where
  "demo_session = the (onload ''blob:scan'' 800 600 True (mount_state (Some demo_container) True))"

definition demo_click :: mouse_event where
  "demo_click = \<lparr> clientX = 400, clientY = 300, button = 0 \<rparr>"

definition demo_middle_click :: mouse_event where
  "demo_middle_click = \<lparr> clientX = 400, clientY = 300, button = 1 \<rparr>"

definition demo_wheel :: wheel_event where
  "demo_wheel = \<lparr> clientX = 400, clientY = 300, button = 0, deltaY = -100 \<rparr>"

text \<open>Mouse events over the points (100, 100) and (300, 100) of the canvas.\<close>

definition drag_start :: mouse_event where
  "drag_start = \<lparr> clientX = 300, clientY = 200, button = 0 \<rparr>"

definition drag_end :: mouse_event where
  "drag_end = \<lparr> clientX = 500, clientY = 200, button = 0 \<rparr>"

text \<open>A drawing action that adds one mark to the canvas.\<close>

definition stamp :: "ImageData \<Rightarrow> ImageData" where
  "stamp img = img @ [(default_style, FillText (js ''+'') 10 10)]"

text \<open>The session with a full history, as nineteen uses of the clear button leave it.\<close>

definition full_session :: session where
  "full_session = demo_session\<lparr>history := replicate 20 emptyData\<rparr>"

text \<open>A ruler gesture from (100, 100) of the canvas in progress: with room in the history,
  and with a full history.\<close>

definition ruler_drag_session :: session where
  "ruler_drag_session =
     demo_session\<lparr>tool := Line, isDrawing := True, startPos := Some (100, 100)\<rparr>"

definition ruler_drag_full_session :: session where
  "ruler_drag_full_session =
     full_session\<lparr>tool := Line, isDrawing := True, startPos := Some (100, 100)\<rparr>"

text \<open>A text of white space only: a no-break space and a space.\<close>

definition blank_text :: jsstring where
  "blank_text = [160, 32]"

text \<open>The overlay that the end of the ruler gesture over (300, 100) opened, after the user
  has replaced the measurement by the blank text.\<close>

definition ruler_session :: session where
  "ruler_session = onChange blank_text (handleMouseUp drag_end ruler_drag_session)"

definition ruler_full_session :: session where
  "ruler_full_session = onChange blank_text (handleMouseUp drag_end ruler_drag_full_session)"

text \<open>An open overlay with a text in it, with the pen, the eraser and the pan tool selected.\<close>

definition typing_session :: session where
  "typing_session = demo_session\<lparr>textInput := \<lparr> isVisible = True, text_x = 200, text_y = 100,
     text_value = js ''note'', rotation = None \<rparr>\<rparr>"

definition eraser_typing_session :: session where
  "eraser_typing_session = typing_session\<lparr>tool := Eraser, opacity := 0.5\<rparr>"

definition pan_typing_session :: session where
  "pan_typing_session = typing_session\<lparr>tool := Pan\<rparr>"

text \<open>A pen stroke in progress.\<close>

definition drawing_session :: session where
  "drawing_session = demo_session\<lparr>isDrawing := True, startPos := Some (10, 10)\<rparr>"

text \<open>A pen stroke started with the left button, and the middle button pressed during
  it.\<close>

definition stroke_and_pan_session :: session where
  "stroke_and_pan_session =
     handleMouseDown demo_middle_click (handleMouseDown demo_click demo_session)"

text \<open>The canvas with the text of \<open>typing_session\<close> painted at (200, 100), the eraser
  selected; and the session after an eraser gesture over it: button down over (100, 100),
  a move to (300, 100), button up.\<close>

definition painted_session :: session where
  "painted_session = (commitText typing_session)\<lparr>tool := Eraser\<rparr>"

definition erased_session :: session where
  "erased_session =
     handleMouseUp drag_end (handleMouseMove drag_end (handleMouseDown drag_start painted_session))"

definition demo_encoder :: "offscreen \<Rightarrow> string" where
  "demo_encoder buffer = ''data:image/png;base64,''"

section \<open>Properties\<close>

subsection \<open>The context and the example sessions\<close>

lemma with_style_sel [simp]:
  "style (with_style f c) = f (style c)"
  "surface (with_style f c) = surface c"
  "saved (with_style f c) = saved c"
  "path (with_style f c) = path c"
  by (simp_all add: with_style_def)

lemma paint_op_sel [simp]:
  "style (paint_op d c) = style c"
  "surface (paint_op d c) = surface c @ [(style c, d)]"
  "saved (paint_op d c) = saved c"
  "path (paint_op d c) = path c"
  by (simp_all add: paint_op_def)

lemma path_ops_sel [simp]:
  "style (beginPath c) = style c" "surface (beginPath c) = surface c" "path (beginPath c) = []"
  "style (moveTo px py c) = style c" "surface (moveTo px py c) = surface c"
  "path (moveTo px py c) = path c @ [MoveTo px py]"
  "style (lineTo px py c) = style c" "surface (lineTo px py c) = surface c"
  "path (lineTo px py c) = path c @ [LineTo px py]"
  "style (closePath c) = style c" "surface (closePath c) = surface c"
  by (simp_all add: beginPath_def moveTo_def lineTo_def closePath_def)

lemma stroke_sel [simp]:
  "style (stroke c) = style c"
  "surface (stroke c) = surface c @ [(style c, Stroke (path c))]"
  "path (stroke c) = path c"
  by (simp_all add: stroke_def)

lemma save_sel [simp]:
  "style (save c) = style c"
  "surface (save c) = surface c"
  "saved (save c) = style c # saved c"
  by (simp_all add: save_def)

lemma restore_sel [simp]:
  "surface (restore c) = surface c"
  "style (restore c) = (case saved c of [] \<Rightarrow> style c | st # rest \<Rightarrow> st)"
  by (simp_all add: restore_def split: list.splits)

lemma setter_alpha [simp]:
  "globalAlpha (set_lineWidth v st) = globalAlpha st"
  "globalAlpha (set_shadowBlur v st) = globalAlpha st"
  "globalAlpha (setLineDash ds st) = globalAlpha st"
  "globalAlpha (set_globalAlpha 1 st) = 1"
  by (simp_all add: set_lineWidth_def set_shadowBlur_def setLineDash_def set_globalAlpha_def)

lemma setter_gco [simp]:
  "globalCompositeOperation (set_lineWidth v st) = globalCompositeOperation st"
  "globalCompositeOperation (set_shadowBlur v st) = globalCompositeOperation st"
  "globalCompositeOperation (setLineDash ds st) = globalCompositeOperation st"
  "globalCompositeOperation (set_globalAlpha v st) = globalCompositeOperation st"
  by (simp_all add: set_lineWidth_def set_shadowBlur_def setLineDash_def set_globalAlpha_def)

lemma demo_session_eq:
  "demo_session = (mount_state (Some demo_container) True)\<lparr>bgImageUrl := ''blob:scan'',
      dimensions := (800, 600), pan := (100, 50), ctx := Some (new_canvas 800 600),
      history := [emptyData]\<rparr>"
  by (simp add: demo_session_def onload_def mount_state_def demo_container_def Let_def
      getImageData_def new_canvas_def)

lemma demo_facts:
  "ctx demo_session = Some (new_canvas 800 600)"
  "canvasRef demo_session"
  "history demo_session = [emptyData]"
  "redoStack demo_session = []"
  "containerRef demo_session = Some demo_container"
  "zoom demo_session = 1"
  "pan demo_session = (100, 50)"
  "tool demo_session = Pen"
  "dimensions demo_session = (800, 600)"
  "isDrawing demo_session = False"
  "isPanning demo_session = False"
  "startPos demo_session = None"
  by (simp_all add: demo_session_eq mount_state_def)

lemma surface_new_canvas: "surface (new_canvas w h) = emptyData"
  by (simp add: new_canvas_def)

text \<open>The load handler initialises the session only when both references are set at that
  time (the page renders the canvas element under the condition that the stored width is
  positive); otherwise it stores the URL and nothing else.\<close>

lemma onload_without_refs:
  assumes "containerRef s0 = None \<or> \<not> canvasRef s0"
  shows "onload url w h has2d s0 = Some (s0\<lparr>bgImageUrl := url\<rparr>)"
  using assms by (auto simp: onload_def Let_def split: option.splits)

lemma onload_initial:
  assumes "containerRef s0 = Some r" and "canvasRef s0" and "0 < w" and "0 < h"
  shows "\<exists>s. onload url w h True s0 = Some s \<and> ctx s = Some (new_canvas w h)
           \<and> history s = [emptyData] \<and> content s = emptyData \<and> dimensions s = (w, h)"
  using assms by (simp add: onload_def Let_def content_def getImageData_def new_canvas_def)

subsection \<open>History\<close>

lemma saveState_sel [simp]:
  "ctx (saveState s) = ctx s"
  "canvasRef (saveState s) = canvasRef s"
  "isDrawing (saveState s) = isDrawing s"
  "startPos (saveState s) = startPos s"
  "textInput (saveState s) = textInput s"
  "tool (saveState s) = tool s"
  by (simp_all add: saveState_def Let_def split: option.splits)

lemma saveState_ready:
  assumes "ctx s = Some c" "canvasRef s"
  shows "saveState s =
           s\<lparr>history := (if length (history s) < 20 then history s else tl (history s)) @ [surface c],
             redoStack := []\<rparr>"
  using assms by (cases "history s") (auto simp: saveState_def getImageData_def Let_def)

lemma commit_ready:
  assumes "ctx s = Some c" "canvasRef s"
  shows "commit f s =
           s\<lparr>ctx := Some (c\<lparr>surface := f (surface c)\<rparr>),
             history := (if length (history s) < 20 then history s else tl (history s))
                          @ [f (surface c)],
             redoStack := []\<rparr>"
  using assms by (simp add: commit_def draw_def saveState_ready)

lemma length_snaps [simp]: "length (snaps fs x) = length fs"
  by (induction fs arbitrary: x) auto

lemma commits_small:
  assumes "ctx s = Some c" "canvasRef s" "length (history s) + length fs \<le> 20"
  shows "\<exists>c'. ctx (commits fs s) = Some c' \<and> canvasRef (commits fs s)
           \<and> surface c' = last (surface c # snaps fs (surface c))
           \<and> history (commits fs s) = history s @ snaps fs (surface c)
           \<and> redoStack (commits fs s) = (if fs = [] then redoStack s else [])"
  using assms
proof (induction fs arbitrary: s c)
  case Nil
  then show ?case by simp
next
  case (Cons f fs)
  let ?s1 = "commit f s"
  have s1: "?s1 = s\<lparr>ctx := Some (c\<lparr>surface := f (surface c)\<rparr>),
                    history := history s @ [f (surface c)], redoStack := []\<rparr>"
    using Cons.prems by (simp add: commit_ready)
  have "\<exists>c'. ctx (commits fs ?s1) = Some c' \<and> canvasRef (commits fs ?s1)
           \<and> surface c' = last (f (surface c) # snaps fs (f (surface c)))
           \<and> history (commits fs ?s1) = history ?s1 @ snaps fs (f (surface c))
           \<and> redoStack (commits fs ?s1) = (if fs = [] then redoStack ?s1 else [])"
    using Cons.IH[of ?s1 "c\<lparr>surface := f (surface c)\<rparr>"] Cons.prems by (simp add: s1)
  then show ?case by (auto simp: s1)
qed

lemma undo_step:
  assumes "ctx s = Some c" "history s = pre @ [a, b]"
  shows "handleUndo s = s\<lparr>redoStack := b # redoStack s, history := pre @ [a],
                          ctx := Some (c\<lparr>surface := a\<rparr>)\<rparr>"
  using assms by (simp add: handleUndo_def Let_def putImageData_def nth_append butlast_append)

lemma undo_many:
  assumes "ctx s = Some c" "history s = pre @ [a] @ suf" "surface c = last (a # suf)"
  shows "\<exists>c'. ctx ((handleUndo ^^ length suf) s) = Some c'
           \<and> surface c' = a
           \<and> history ((handleUndo ^^ length suf) s) = pre @ [a]
           \<and> redoStack ((handleUndo ^^ length suf) s) = suf @ redoStack s"
  using assms
proof (induction suf arbitrary: s c rule: rev_induct)
  case Nil
  then show ?case by simp
next
  case (snoc b suf)
  obtain pre' a' where split: "pre @ [a] @ suf = pre' @ [a']" "a' = last (a # suf)"
    by (cases suf rule: rev_cases) auto
  have h: "history s = pre' @ [a', b]"
    using snoc.prems split by simp
  let ?s1 = "handleUndo s"
  have s1: "?s1 = s\<lparr>redoStack := b # redoStack s, history := pre' @ [a'],
                     ctx := Some (c\<lparr>surface := a'\<rparr>)\<rparr>"
    using undo_step[OF snoc.prems(1) h] .
  have "\<exists>c'. ctx ((handleUndo ^^ length suf) ?s1) = Some c'
           \<and> surface c' = a
           \<and> history ((handleUndo ^^ length suf) ?s1) = pre @ [a]
           \<and> redoStack ((handleUndo ^^ length suf) ?s1) = suf @ redoStack ?s1"
    by (rule snoc.IH[of ?s1 "c\<lparr>surface := a'\<rparr>"]) (use split in \<open>simp_all add: s1\<close>)
  then show ?case by (simp add: funpow_swap1 s1)
qed

lemma redo_many:
  assumes "ctx s = Some c" "redoStack s = suf @ r"
  shows "\<exists>c'. ctx ((handleRedo ^^ length suf) s) = Some c'
           \<and> surface c' = last (surface c # suf)
           \<and> history ((handleRedo ^^ length suf) s) = history s @ suf
           \<and> redoStack ((handleRedo ^^ length suf) s) = r"
  using assms
proof (induction suf arbitrary: s c)
  case Nil
  then show ?case by simp
next
  case (Cons b suf)
  let ?s1 = "handleRedo s"
  have s1: "?s1 = s\<lparr>redoStack := suf @ r, history := history s @ [b],
                     ctx := Some (c\<lparr>surface := b\<rparr>)\<rparr>"
    using Cons.prems by (simp add: handleRedo_def putImageData_def)
  have "\<exists>c'. ctx ((handleRedo ^^ length suf) ?s1) = Some c'
           \<and> surface c' = last (surface (c\<lparr>surface := b\<rparr>) # suf)
           \<and> history ((handleRedo ^^ length suf) ?s1) = history ?s1 @ suf
           \<and> redoStack ((handleRedo ^^ length suf) ?s1) = r"
    by (rule Cons.IH) (simp_all add: s1)
  then show ?case by (auto simp add: funpow_swap1 s1)
qed

lemma length_saveState: "length (history s) \<le> 20 \<Longrightarrow> length (history (saveState s)) \<le> 20"
  by (auto simp: saveState_def Let_def split: option.splits)

lemma length_commit: "length (history s) \<le> 20 \<Longrightarrow> length (history (commit f s)) \<le> 20"
  unfolding commit_def by (rule length_saveState) (simp add: draw_def split: option.splits)

lemma length_commits: "length (history s) \<le> 20 \<Longrightarrow> length (history (commits fs s)) \<le> 20"
  by (induction fs arbitrary: s) (auto simp: length_commit)

lemma commits_top:
  assumes "ctx s = Some c" and "canvasRef s" and "history s \<noteq> []"
    and "last (history s) = surface c" and "redoStack s = []"
  shows "\<exists>c'. ctx (commits fs s) = Some c' \<and> history (commits fs s) \<noteq> []
           \<and> last (history (commits fs s)) = surface c'
           \<and> redoStack (commits fs s) = []
           \<and> length (history (commits fs s)) \<le> length (history s) + length fs"
  using assms
proof (induction fs arbitrary: s c)
  case Nil
  then show ?case by simp
next
  case (Cons f fs)
  let ?c1 = "c\<lparr>surface := f (surface c)\<rparr>"
  let ?s1 = "commit f s"
  have s1: "?s1 = s\<lparr>ctx := Some ?c1,
      history := (if length (history s) < 20 then history s else tl (history s)) @ [f (surface c)],
      redoStack := []\<rparr>"
    using Cons.prems by (simp add: commit_ready)
  have len: "length (history ?s1) \<le> length (history s) + 1"
    by (simp add: s1)
  have "\<exists>c'. ctx (commits fs ?s1) = Some c' \<and> history (commits fs ?s1) \<noteq> []
           \<and> last (history (commits fs ?s1)) = surface c'
           \<and> redoStack (commits fs ?s1) = []
           \<and> length (history (commits fs ?s1)) \<le> length (history ?s1) + length fs"
    by (rule Cons.IH[of ?s1 ?c1]) (use Cons.prems in \<open>simp_all add: s1\<close>)
  then show ?case using len by auto
qed

lemma undo_idle:
  assumes "length (history s) \<le> 1"
  shows "(handleUndo ^^ k) s = s"
proof (induction k)
  case 0
  show ?case by simp
next
  case (Suc k)
  have "handleUndo s = s"
    using assms by (simp add: handleUndo_def split: option.splits)
  with Suc show ?case by simp
qed

lemma redo_idle:
  assumes "redoStack s = []"
  shows "(handleRedo ^^ k) s = s"
proof (induction k)
  case 0
  show ?case by simp
next
  case (Suc k)
  have "handleRedo s = s"
    using assms by (simp add: handleRedo_def split: option.splits)
  with Suc show ?case by simp
qed

lemma undo_enough:
  assumes "ctx s = Some c" and "history s = a # suf" and "surface c = last (a # suf)"
    and "length suf \<le> n"
  shows "\<exists>c'. ctx ((handleUndo ^^ n) s) = Some c' \<and> surface c' = a
           \<and> redoStack ((handleUndo ^^ n) s) = suf @ redoStack s"
proof -
  let ?s1 = "(handleUndo ^^ length suf) s"
  have "\<exists>c'. ctx ?s1 = Some c' \<and> surface c' = a \<and> history ?s1 = [] @ [a]
           \<and> redoStack ?s1 = suf @ redoStack s"
    by (rule undo_many[OF assms(1)]) (use assms in simp_all)
  then obtain c' where c': "ctx ?s1 = Some c'" "surface c' = a" "history ?s1 = [a]"
      "redoStack ?s1 = suf @ redoStack s"
    by auto
  obtain k where n: "n = k + length suf"
    using assms(4) by (metis le_add_diff_inverse2)
  have "(handleUndo ^^ n) s = (handleUndo ^^ k) ?s1"
    by (simp add: n funpow_add)
  also have "\<dots> = ?s1"
    by (rule undo_idle) (simp add: c')
  finally show ?thesis using c' by simp
qed

lemma redo_enough:
  assumes "ctx s = Some c" and "redoStack s = suf" and "length suf \<le> n"
  shows "\<exists>c'. ctx ((handleRedo ^^ n) s) = Some c' \<and> surface c' = last (surface c # suf)"
proof -
  let ?s1 = "(handleRedo ^^ length suf) s"
  have "\<exists>c'. ctx ?s1 = Some c' \<and> surface c' = last (surface c # suf)
           \<and> history ?s1 = history s @ suf \<and> redoStack ?s1 = []"
    by (rule redo_many[OF assms(1)]) (use assms in simp)
  then obtain c' where c': "ctx ?s1 = Some c'" "surface c' = last (surface c # suf)"
      "redoStack ?s1 = []"
    by auto
  obtain k where n: "n = k + length suf"
    using assms(3) by (metis le_add_diff_inverse2)
  have "(handleRedo ^^ n) s = (handleRedo ^^ k) ?s1"
    by (simp add: n funpow_add)
  also have "\<dots> = ?s1"
    by (rule redo_idle) (simp add: c')
  finally show ?thesis using c' by simp
qed

lemma clamp_nonzero: "min (max 0.1 (z::real)) 5 \<noteq> 0"
  by (simp add: min_def max_def)

lemma clamp_range: "0.1 \<le> min (max 0.1 (z::real)) 5 \<and> min (max 0.1 (z::real)) 5 \<le> 5"
  by (simp add: min_def max_def)

subsection \<open>Coordinates\<close>

text \<open>C1. A position of the pointer in the container is mapped to the canvas by \<open>getPos\<close>;
  the transform of the layer maps the result back to the same position of the container,
  for every zoom from 0.1 to 5 and every pan.\<close>

theorem screen_world_roundtrip:
  assumes "containerRef s = Some r" and "0.1 \<le> zoom s" and "zoom s \<le> 5"
  shows "layer_transform s (getPos e s) = (clientX e - rect_left r, clientY e - rect_top r)"
  using assms by (simp add: layer_transform_def getPos_def Let_def)

theorem screen_world_roundtrip_witness:
  "containerRef demo_session = Some demo_container \<and> 0.1 \<le> zoom demo_session
   \<and> zoom demo_session \<le> 5
   \<and> layer_transform demo_session (getPos demo_click demo_session)
       = (clientX demo_click - rect_left demo_container, clientY demo_click - rect_top demo_container)"
proof -
  have h: "containerRef demo_session = Some demo_container" "0.1 \<le> zoom demo_session"
    "zoom demo_session \<le> 5"
    by (simp_all add: demo_facts)
  from screen_world_roundtrip[OF h] h show ?thesis by blast
qed

text \<open>C2. A wheel event at a position of the pointer changes the zoom, keeps it between 0.1
  and 5, and moves the pan so that the point of the canvas under the pointer is the same
  before and after.\<close>

theorem wheel_zoom_keeps_anchor:
  assumes "0.1 \<le> zoom s" and "zoom s \<le> 5"
  shows "getPos e (handleWheel e s) = getPos e s
       \<and> 0.1 \<le> zoom (handleWheel e s) \<and> zoom (handleWheel e s) \<le> 5"
proof (cases "containerRef s")
  case None
  then show ?thesis using assms by (simp add: handleWheel_def Let_def)
next
  case (Some rect)
  let ?nz = "min (max 0.1 (zoom s + - deltaY e * 0.001)) 5"
  have z: "zoom (handleWheel e s) = ?nz"
    using Some by (simp add: handleWheel_def Let_def)
  have nz: "?nz \<noteq> 0" by (rule clamp_nonzero)
  have "getPos e (handleWheel e s) = getPos e s"
    using Some nz assms by (simp add: getPos_def handleWheel_def Let_def)
  then show ?thesis using z clamp_range[of "zoom s + - deltaY e * 0.001"] by simp
qed

theorem wheel_zoom_keeps_anchor_witness:
  "0.1 \<le> zoom demo_session \<and> zoom demo_session \<le> 5
   \<and> getPos demo_wheel (handleWheel demo_wheel demo_session) = getPos demo_wheel demo_session
   \<and> 0.1 \<le> zoom (handleWheel demo_wheel demo_session)
   \<and> zoom (handleWheel demo_wheel demo_session) \<le> 5"
proof -
  have h: "0.1 \<le> zoom demo_session" "zoom demo_session \<le> 5"
    by (simp_all add: demo_facts)
  from wheel_zoom_keeps_anchor[OF h] h show ?thesis by blast
qed

lemma demo_wheel_zoom: "zoom (handleWheel demo_wheel demo_session) = 1.1"
  by (simp add: handleWheel_def Let_def demo_facts demo_wheel_def)

subsection \<open>Undo and redo\<close>

text \<open>C3, as stated, fails at twenty actions: the twentieth commit drops the snapshot of
  the empty canvas from the history, and twenty undos stop at the first mark.\<close>

theorem undo_all_after_twenty_commits:
  "content demo_session = emptyData
   \<and> content ((handleUndo ^^ 20) (commits (replicate 20 stamp) demo_session)) = stamp emptyData
   \<and> stamp emptyData \<noteq> emptyData"
  by (simp add: eval_nat_numeral demo_session_eq mount_state_def commit_def draw_def
      saveState_def handleUndo_def Let_def getImageData_def putImageData_def new_canvas_def
      content_def stamp_def emptyData_def)

text \<open>C3, amended. From a session whose history holds the content of the canvas only and
  whose redo stack is empty (the session after loading, with the empty canvas), and for
  any number of committed drawing actions: as many undos as actions bring the canvas back
  to the initial content when there were at most nineteen actions; and, for every number
  of actions, as many redos after the undos bring it to the content after the last
  action.\<close>

theorem undo_redo_restores:
  assumes "ctx s = Some c" and "canvasRef s" and "history s = [surface c]"
    and "redoStack s = []"
  shows "(length fs \<le> 19 \<longrightarrow>
            content ((handleUndo ^^ length fs) (commits fs s)) = surface c)
       \<and> content ((handleRedo ^^ length fs) ((handleUndo ^^ length fs) (commits fs s)))
           = content (commits fs s)"
proof (intro conjI impI)
  assume short: "length fs \<le> 19"
  let ?xs = "snaps fs (surface c)"
  let ?s1 = "commits fs s"
  obtain c1 where c1: "ctx ?s1 = Some c1" "surface c1 = last (surface c # ?xs)"
      "history ?s1 = [surface c] @ ?xs"
    using commits_small[OF assms(1,2), of fs] assms(3) short by auto
  have "\<exists>c'. ctx ((handleUndo ^^ length ?xs) ?s1) = Some c' \<and> surface c' = surface c
           \<and> history ((handleUndo ^^ length ?xs) ?s1) = [] @ [surface c]
           \<and> redoStack ((handleUndo ^^ length ?xs) ?s1) = ?xs @ redoStack ?s1"
    by (rule undo_many[OF c1(1)]) (simp_all add: c1)
  then show "content ((handleUndo ^^ length fs) (commits fs s)) = surface c"
    by (auto simp: content_def)
next
  let ?n = "length fs"
  let ?s1 = "commits fs s"
  obtain c1 where c1: "ctx ?s1 = Some c1" "history ?s1 \<noteq> []"
      "last (history ?s1) = surface c1" "redoStack ?s1 = []"
      "length (history ?s1) \<le> length (history s) + ?n"
    using commits_top[OF assms(1,2), of fs] assms(3,4) by auto
  obtain a suf where h: "history ?s1 = a # suf"
    using c1(2) by (cases "history ?s1") auto
  have suf: "length suf \<le> ?n"
    using c1(5) h assms(3) by simp
  let ?s2 = "(handleUndo ^^ ?n) ?s1"
  have "\<exists>c'. ctx ?s2 = Some c' \<and> surface c' = a \<and> redoStack ?s2 = suf @ redoStack ?s1"
    by (rule undo_enough[OF c1(1) h _ suf]) (use c1(3) h in simp)
  then obtain c2 where c2: "ctx ?s2 = Some c2" "surface c2 = a" "redoStack ?s2 = suf"
    using c1(4) by auto
  have "\<exists>c'. ctx ((handleRedo ^^ ?n) ?s2) = Some c' \<and> surface c' = last (surface c2 # suf)"
    by (rule redo_enough[OF c2(1) c2(3) suf])
  then obtain c3 where c3: "ctx ((handleRedo ^^ ?n) ?s2) = Some c3"
      "surface c3 = last (a # suf)"
    using c2(2) by auto
  show "content ((handleRedo ^^ ?n) ?s2) = content ?s1"
    using c1(3) h by (simp add: content_def c1(1) c3)
qed

theorem undo_redo_restores_witness:
  "ctx demo_session = Some (new_canvas 800 600) \<and> canvasRef demo_session
   \<and> history demo_session = [surface (new_canvas 800 600)] \<and> redoStack demo_session = []
   \<and> length [stamp, stamp, stamp] \<le> 19
   \<and> content ((handleUndo ^^ length [stamp, stamp, stamp]) (commits [stamp, stamp, stamp] demo_session))
       = surface (new_canvas 800 600)
   \<and> content ((handleRedo ^^ length [stamp, stamp, stamp])
        ((handleUndo ^^ length [stamp, stamp, stamp]) (commits [stamp, stamp, stamp] demo_session)))
       = content (commits [stamp, stamp, stamp] demo_session)
   \<and> content ((handleRedo ^^ length (replicate 20 stamp))
        ((handleUndo ^^ length (replicate 20 stamp)) (commits (replicate 20 stamp) demo_session)))
       = content (commits (replicate 20 stamp) demo_session)"
proof -
  have h: "ctx demo_session = Some (new_canvas 800 600)" "canvasRef demo_session"
    "history demo_session = [surface (new_canvas 800 600)]" "redoStack demo_session = []"
    and g: "length [stamp, stamp, stamp] \<le> 19"
    by (simp_all add: demo_facts surface_new_canvas)
  from undo_redo_restores[OF h, of "[stamp, stamp, stamp]"]
    undo_redo_restores[OF h, of "replicate 20 stamp"] h g
  show ?thesis by blast
qed

text \<open>C4. The history never holds more than twenty snapshots, however many drawing actions
  are committed; a commit on a history of twenty drops its first (oldest) entry and puts
  the new snapshot last.\<close>

theorem history_bounded_oldest_dropped:
  assumes "length (history s) \<le> 20"
  shows "length (history (commits fs s)) \<le> 20
       \<and> (\<forall>c f. ctx s = Some c \<and> canvasRef s \<and> length (history s) = 20
              \<longrightarrow> history (commit f s) = tl (history s) @ [f (surface c)])"
  using assms by (auto simp: length_commits commit_ready)

lemma full_facts:
  "ctx full_session = Some (new_canvas 800 600)"
  "canvasRef full_session"
  "history full_session = replicate 20 emptyData"
  by (simp_all add: full_session_def demo_facts)

theorem history_bounded_oldest_dropped_witness:
  "length (history full_session) \<le> 20
   \<and> length (history (commits (replicate 30 stamp) full_session)) \<le> 20
   \<and> ctx full_session = Some (new_canvas 800 600) \<and> canvasRef full_session
   \<and> length (history full_session) = 20
   \<and> history (commit stamp full_session)
       = tl (history full_session) @ [stamp (surface (new_canvas 800 600))]"
proof -
  have h: "length (history full_session) \<le> 20"
    and g: "ctx full_session = Some (new_canvas 800 600) \<and> canvasRef full_session
      \<and> length (history full_session) = 20"
    by (simp_all add: full_facts)
  from history_bounded_oldest_dropped[OF h, of "replicate 30 stamp"] h g show ?thesis by blast
qed

lemma full_session_reachable: "(clearCanvas ^^ 19) demo_session = full_session"
  by (simp add: eval_nat_numeral full_session_def demo_session_eq mount_state_def
      clearCanvas_def clearAll_def saveState_def Let_def getImageData_def new_canvas_def
      emptyData_def)

subsection \<open>Styles and strokes\<close>

lemma applyStyles_gco:
  "globalCompositeOperation (style (applyStyles s c))
     = (if tool s = Eraser then DestinationOut else SourceOver)"
  by (simp add: applyStyles_def Let_def)

lemma applyStyles_eraser_alpha:
  "tool s = Eraser \<Longrightarrow> globalAlpha (style (applyStyles s c)) = 1"
  by (simp add: applyStyles_def Let_def)

lemma applyStyles_sel [simp]:
  "surface (applyStyles s c) = surface c"
  "path (applyStyles s c) = path c"
  by (simp_all add: applyStyles_def Let_def)

text \<open>The compositing that \<open>applyStyles\<close> selects: destination-out at full alpha with the
  eraser, which takes a pixel that a stroke covers to alpha 0, and source-over with every
  other tool.\<close>

lemma applyStyles_compositing:
  "(tool s = Eraser \<longrightarrow>
      globalCompositeOperation (style (applyStyles s c)) = DestinationOut
      \<and> globalAlpha (style (applyStyles s c)) = 1
      \<and> composite_alpha (globalCompositeOperation (style (applyStyles s c)))
           (globalAlpha (style (applyStyles s c))) ad = 0)
   \<and> (tool s \<noteq> Eraser \<longrightarrow>
      globalCompositeOperation (style (applyStyles s c)) = SourceOver)"
  by (simp add: applyStyles_gco applyStyles_eraser_alpha composite_alpha_def)

text \<open>A move of the mouse during a stroke of the pen, the highlighter or the eraser starts
  a new path, adds the position of the mouse as its only point and strokes it: the stroked
  path never joins two positions of the mouse, and has no piece.\<close>

lemma freehand_move:
  assumes "\<not> isPanning s" and "isDrawing s" and "canvasRef s" and "ctx s = Some c"
    and "startPos s = Some p" and "snapshot s = Some sn"
    and "tool s = Pen \<or> tool s = Highlighter \<or> tool s = Eraser"
  shows "\<exists>c'. ctx (handleMouseMove e s) = Some c'
     \<and> surface c' = surface c @
          [(style (applyStyles s c), Stroke [LineTo (fst (getPos e s)) (snd (getPos e s))])]
     \<and> path_pieces [LineTo (fst (getPos e s)) (snd (getPos e s))] = []"
proof -
  obtain sx sy where p: "p = (sx, sy)" by (cases p)
  obtain px py where g: "getPos e s = (px, py)" by (cases "getPos e s")
  have st: "style (applyStyles s (beginPath c)) = style (applyStyles s c)"
    by (simp add: applyStyles_def Let_def)
  have "ctx (handleMouseMove e s) = Some (stroke (lineTo px py (applyStyles s (beginPath c))))"
    using assms p g by (auto simp: handleMouseMove_def Let_def)
  then show ?thesis
    using g st by (simp add: path_pieces_def)
qed

lemma typing_facts:
  "ctx typing_session = Some (new_canvas 800 600)"
  "canvasRef typing_session"
  "isVisible (textInput typing_session)"
  "trim (text_value (textInput typing_session)) \<noteq> []"
  "tool typing_session = Pen"
  "isDrawing typing_session = False"
  "isPanning typing_session = False"
  "containerRef typing_session = Some demo_container"
  "zoom typing_session = 1"
  "pan typing_session = (100, 50)"
  by (simp_all add: typing_session_def demo_facts trim_def is_space_def js_def)

lemma commitText_frame:
  "canvasRef (commitText s) = canvasRef s"
  "containerRef (commitText s) = containerRef s"
  "zoom (commitText s) = zoom s"
  "pan (commitText s) = pan s"
  "isPanning (commitText s) = isPanning s"
  "tool (commitText s) = tool s"
  by (simp_all add: commitText_def saveState_def Let_def split: option.splits)

lemma painted_facts:
  "canvasRef painted_session"
  "containerRef painted_session = Some demo_container"
  "zoom painted_session = 1"
  "pan painted_session = (100, 50)"
  "\<not> isPanning painted_session"
  "tool painted_session = Eraser"
  "\<not> isVisible (textInput painted_session)"
  by (simp_all add: painted_session_def commitText_frame typing_facts)
    (simp add: commitText_def Let_def split: option.splits)

lemma painted_content:
  "\<exists>c st1 st2. ctx painted_session = Some c
     \<and> surface c = [(st1, StrokeText (js ''note'') 200 100), (st2, FillText (js ''note'') 200 100)]"
proof -
  have t: "textInput typing_session = \<lparr> isVisible = True, text_x = 200, text_y = 100,
      text_value = js ''note'', rotation = None \<rparr>"
    by (simp add: typing_session_def)
  obtain c where c: "ctx (commitText typing_session) = Some c"
    using typing_facts by (simp add: commitText_def Let_def)
  then have "surface c = [(fst (surface c ! 0), StrokeText (js ''note'') 200 100),
      (fst (surface c ! 1), FillText (js ''note'') 200 100)]"
    using typing_facts(1,3,4)
    by (auto simp add: commitText_def Let_def t surface_new_canvas emptyData_def)
  then show ?thesis using c by (auto simp: painted_session_def)
qed

lemma drag_positions:
  "getPos drag_start painted_session = (100, 100)"
  "containerRef s = Some demo_container \<Longrightarrow> zoom s = 1 \<Longrightarrow> pan s = (100, 50)
     \<Longrightarrow> getPos drag_end s = (300, 100)"
  by (simp_all add: getPos_def painted_facts demo_container_def drag_start_def drag_end_def)

lemma drag_button: "button drag_start \<noteq> 1"
  by (simp add: drag_start_def)

text \<open>C5 fails on the code. On a canvas with a text painted across (200, 100) and the eraser
  selected, a drag from (100, 100) to (300, 100) leaves what was painted in place and adds
  one stroke, with destination-out compositing, of a path that holds the single command
  \<^verbatim>\<open>lineTo(300, 100)\<close>: a path without any line, which paints (and erases)
  nothing.\<close>

theorem eraser_drag_strokes_no_line:
  "tool painted_session = Eraser
   \<and> content painted_session \<noteq> emptyData
   \<and> take (length (content painted_session)) (content erased_session) = content painted_session
   \<and> map snd (drop (length (content painted_session)) (content erased_session))
       = [Stroke [LineTo 300 100]]
   \<and> map (\<lambda>p. globalCompositeOperation (fst p))
        (drop (length (content painted_session)) (content erased_session)) = [DestinationOut]
   \<and> path_pieces [LineTo 300 100] = []"
proof -
  obtain c st1 st2 where c: "ctx painted_session = Some c"
      "surface c = [(st1, StrokeText (js ''note'') 200 100), (st2, FillText (js ''note'') 200 100)]"
    using painted_content by blast
  let ?c1 = "moveTo 100 100 (applyStyles painted_session (beginPath c))"
  let ?s1 = "handleMouseDown drag_start painted_session"
  have s1: "?s1 = painted_session\<lparr>isDrawing := True, startPos := Some (100, 100),
      snapshot := Some (getImageData c), ctx := Some ?c1\<rparr>"
    using painted_facts c(1) drag_button
    by (simp add: handleMouseDown_def drag_positions(1))
  have sc1: "surface ?c1 = surface c"
    by simp
  let ?s2 = "handleMouseMove drag_end ?s1"
  have pos: "getPos drag_end ?s1 = (300, 100)"
    by (rule drag_positions(2)) (simp_all add: s1 painted_facts)
  have "\<exists>c'. ctx ?s2 = Some c'
     \<and> surface c' = surface ?c1 @
          [(style (applyStyles ?s1 ?c1), Stroke [LineTo (fst (getPos drag_end ?s1))
             (snd (getPos drag_end ?s1))])]
     \<and> path_pieces [LineTo (fst (getPos drag_end ?s1)) (snd (getPos drag_end ?s1))] = []"
    by (rule freehand_move[where p = "(100, 100)" and sn = "getImageData c"])
      (simp_all add: s1 painted_facts)
  then obtain c2 where c2: "ctx ?s2 = Some c2"
      "surface c2 = surface c @ [(style (applyStyles ?s1 ?c1), Stroke [LineTo 300 100])]"
      "path_pieces [LineTo 300 100] = []"
    using pos sc1 by auto
  have frame2: "\<not> isPanning ?s2" "isDrawing ?s2" "startPos ?s2 = Some (100, 100)"
    "tool ?s2 = Eraser"
    using c(1) by (simp_all add: handleMouseMove_def s1 painted_facts Let_def split: prod.splits)
  have "ctx (handleMouseUp drag_end ?s2) = Some (closePath c2)"
    using c2(1) frame2 by (simp add: handleMouseUp_def Let_def)
  then have end_content: "content erased_session
      = surface c @ [(style (applyStyles ?s1 ?c1), Stroke [LineTo 300 100])]"
    by (simp add: erased_session_def content_def c2(2))
  have mode: "globalCompositeOperation (style (applyStyles ?s1 ?c1)) = DestinationOut"
    by (simp add: applyStyles_gco s1 painted_facts)
  have start_content: "content painted_session = surface c"
    by (simp add: content_def c(1))
  show ?thesis
    by (simp add: end_content start_content c(2) c2(3) mode painted_facts emptyData_def)
qed

subsection \<open>Text overlay\<close>

lemma commitText_blank:
  assumes "trim (text_value (textInput s)) = []"
  shows "commitText s =
           (if tool s = Line then saveState (s\<lparr>textInput := (textInput s)\<lparr>isVisible := False\<rparr>\<rparr>)
            else s\<lparr>textInput := (textInput s)\<lparr>isVisible := False\<rparr>\<rparr>)"
  using assms by (simp add: commitText_def Let_def split: option.splits)

lemma onChange_onChange: "onChange v (onChange u s) = onChange v s"
  by (simp add: onChange_def)

text \<open>The end of a ruler gesture opens the overlay and changes nothing else but the flag of
  the gesture.\<close>

lemma ruler_up:
  assumes "tool s = Line" and "isDrawing s" and "\<not> isPanning s" and "ctx s = Some c"
    and "startPos s = Some p"
  shows "tool (handleMouseUp e s) = Line"
    and "ctx (handleMouseUp e s) = ctx s"
    and "history (handleMouseUp e s) = history s"
    and "canvasRef (handleMouseUp e s) = canvasRef s"
    and "isVisible (textInput (handleMouseUp e s))"
proof -
  obtain sx sy where p: "p = (sx, sy)" by (cases p)
  obtain px py where g: "getPos e s = (px, py)" by (cases "getPos e s")
  show "tool (handleMouseUp e s) = Line" "ctx (handleMouseUp e s) = ctx s"
    "history (handleMouseUp e s) = history s" "canvasRef (handleMouseUp e s) = canvasRef s"
    "isVisible (textInput (handleMouseUp e s))"
    using assms p g by (simp_all add: handleMouseUp_def Let_def)
qed

lemma onChange_sel [simp]:
  "tool (onChange v s) = tool s"
  "ctx (onChange v s) = ctx s"
  "history (onChange v s) = history s"
  "canvasRef (onChange v s) = canvasRef s"
  "text_value (textInput (onChange v s)) = v"
  "isVisible (textInput (onChange v s)) = isVisible (textInput s)"
  by (simp_all add: onChange_def)

lemma ruler_blank_commit:
  assumes "tool s = Line" and "isDrawing s" and "\<not> isPanning s" and "ctx s = Some c"
    and "startPos s = Some p" and "canvasRef s" and "trim v = []"
  shows "isVisible (textInput (onChange v (handleMouseUp e s)))"
    and "ctx (commitText (onChange v (handleMouseUp e s))) = ctx s"
    and "history (commitText (onChange v (handleMouseUp e s)))
           = (if length (history s) < 20 then history s else tl (history s)) @ [surface c]"
proof -
  note u = ruler_up[OF assms(1-5), of e]
  let ?s1 = "onChange v (handleMouseUp e s)"
  let ?s2 = "?s1\<lparr>textInput := (textInput ?s1)\<lparr>isVisible := False\<rparr>\<rparr>"
  show "isVisible (textInput ?s1)"
    by (simp add: u)
  have blank: "trim (text_value (textInput ?s1)) = []"
    by (simp add: assms(7))
  have c: "commitText ?s1 = saveState ?s2"
    using commitText_blank[OF blank] by (simp add: u)
  have s2: "ctx ?s2 = Some c" "canvasRef ?s2" "history ?s2 = history s"
    using assms(4,6) by (simp_all add: u)
  show "ctx (commitText ?s1) = ctx s"
    using s2(1) assms(4) by (simp add: c)
  show "history (commitText ?s1)
          = (if length (history s) < 20 then history s else tl (history s)) @ [surface c]"
    by (simp add: c saveState_ready[OF s2(1,2)] s2(3))
qed

lemma ruler_drag_facts:
  "tool ruler_drag_session = Line" "isDrawing ruler_drag_session"
  "\<not> isPanning ruler_drag_session" "ctx ruler_drag_session = Some (new_canvas 800 600)"
  "startPos ruler_drag_session = Some (100, 100)" "canvasRef ruler_drag_session"
  "history ruler_drag_session = [emptyData]"
  by (simp_all add: ruler_drag_session_def demo_facts)

lemma ruler_drag_full_facts:
  "tool ruler_drag_full_session = Line" "isDrawing ruler_drag_full_session"
  "\<not> isPanning ruler_drag_full_session"
  "ctx ruler_drag_full_session = Some (new_canvas 800 600)"
  "startPos ruler_drag_full_session = Some (100, 100)" "canvasRef ruler_drag_full_session"
  "history ruler_drag_full_session = replicate 20 emptyData"
  by (simp_all add: ruler_drag_full_session_def full_session_def demo_facts)

lemma blank_text_trim: "trim blank_text = []"
  by (simp add: blank_text_def trim_def is_space_def)

text \<open>C6, as stated, fails on a full history: the overlay that the ruler opened is committed
  with a text of white space only, and the history has twenty entries before and after.\<close>

theorem blank_commit_on_full_history:
  "ruler_full_session = onChange blank_text (handleMouseUp drag_end ruler_drag_full_session)
   \<and> tool ruler_drag_full_session = Line
   \<and> isVisible (textInput ruler_full_session)
   \<and> trim (text_value (textInput ruler_full_session)) = []
   \<and> length (history ruler_full_session) = 20
   \<and> length (history (commitText ruler_full_session)) = 20"
proof -
  note f = ruler_drag_full_facts
  note u = ruler_up[OF f(1-5), of drag_end]
  have h: "history ruler_full_session = replicate 20 emptyData"
    by (simp add: ruler_full_session_def u f(7))
  have v: "text_value (textInput ruler_full_session) = blank_text"
    by (simp add: ruler_full_session_def)
  have "history (commitText ruler_full_session)
          = (if length (history ruler_drag_full_session) < 20 then history ruler_drag_full_session
             else tl (history ruler_drag_full_session)) @ [surface (new_canvas 800 600)]"
    unfolding ruler_full_session_def
    by (rule ruler_blank_commit(3)[OF f(1-6) blank_text_trim])
  then have "length (history (commitText ruler_full_session)) = 20"
    by (simp add: f(7))
  moreover have "isVisible (textInput ruler_full_session)"
    unfolding ruler_full_session_def
    by (rule ruler_blank_commit(1)[OF f(1-6) blank_text_trim])
  ultimately show ?thesis
    by (simp add: h v blank_text_trim f(1)) (simp add: ruler_full_session_def)
qed

text \<open>C6, amended. Committing an open overlay whose text is empty or white space only
  leaves the canvas as it is and closes the overlay. When the overlay is the one that the
  end of a ruler gesture opened (and the user has since typed the blank text), the commit
  saves one snapshot of the canvas, with the measurement line, at the end of the history:
  the history grows by exactly one entry while it has fewer than twenty, and at twenty
  entries it loses its oldest entry and keeps its length.\<close>

theorem blank_commit_keeps_canvas:
  "(isVisible (textInput s) \<and> trim (text_value (textInput s)) = [] \<longrightarrow>
      ctx (commitText s) = ctx s \<and> \<not> isVisible (textInput (commitText s)))
   \<and> (tool r = Line \<and> isDrawing r \<and> \<not> isPanning r \<and> ctx r = Some c \<and> startPos r = Some p
        \<and> canvasRef r \<and> trim v = [] \<longrightarrow>
      isVisible (textInput (onChange v (handleMouseUp e r)))
      \<and> ctx (commitText (onChange v (handleMouseUp e r))) = ctx r
      \<and> history (commitText (onChange v (handleMouseUp e r)))
          = (if length (history r) < 20 then history r else tl (history r)) @ [surface c]
      \<and> (length (history r) < 20 \<longrightarrow>
           length (history (commitText (onChange v (handleMouseUp e r)))) = length (history r) + 1)
      \<and> (length (history r) = 20 \<longrightarrow>
           length (history (commitText (onChange v (handleMouseUp e r)))) = 20))"
proof (intro conjI impI)
  assume a: "isVisible (textInput s) \<and> trim (text_value (textInput s)) = []"
  then show "ctx (commitText s) = ctx s"
    by (simp add: commitText_blank)
  from a show "\<not> isVisible (textInput (commitText s))"
    by (simp add: commitText_blank)
next
  assume a: "tool r = Line \<and> isDrawing r \<and> \<not> isPanning r \<and> ctx r = Some c
    \<and> startPos r = Some p \<and> canvasRef r \<and> trim v = []"
  then have f: "tool r = Line" "isDrawing r" "\<not> isPanning r" "ctx r = Some c"
    "startPos r = Some p" "canvasRef r" "trim v = []"
    by simp_all
  let ?s1 = "onChange v (handleMouseUp e r)"
  show "isVisible (textInput ?s1)"
    by (rule ruler_blank_commit(1)[OF f])
  show "ctx (commitText ?s1) = ctx r"
    by (rule ruler_blank_commit(2)[OF f])
  show h: "history (commitText ?s1)
      = (if length (history r) < 20 then history r else tl (history r)) @ [surface c]"
    by (rule ruler_blank_commit(3)[OF f])
  show "length (history (commitText ?s1)) = length (history r) + 1"
    if "length (history r) < 20"
    using that by (simp add: h)
  show "length (history (commitText ?s1)) = 20" if "length (history r) = 20"
    using that by (simp add: h)
qed

theorem blank_commit_keeps_canvas_witness:
  "(isVisible (textInput ruler_session) \<and> trim (text_value (textInput ruler_session)) = []
    \<and> ctx (commitText ruler_session) = ctx ruler_session
    \<and> \<not> isVisible (textInput (commitText ruler_session)))
   \<and> (tool ruler_drag_session = Line \<and> isDrawing ruler_drag_session
    \<and> \<not> isPanning ruler_drag_session \<and> ctx ruler_drag_session = Some (new_canvas 800 600)
    \<and> startPos ruler_drag_session = Some (100, 100) \<and> canvasRef ruler_drag_session
    \<and> trim blank_text = [] \<and> length (history ruler_drag_session) < 20
    \<and> isVisible (textInput (onChange blank_text (handleMouseUp drag_end ruler_drag_session)))
    \<and> ctx (commitText (onChange blank_text (handleMouseUp drag_end ruler_drag_session)))
        = ctx ruler_drag_session
    \<and> length (history (commitText (onChange blank_text (handleMouseUp drag_end ruler_drag_session))))
        = length (history ruler_drag_session) + 1)
   \<and> (length (history ruler_drag_full_session) = 20
    \<and> length (history (commitText
        (onChange blank_text (handleMouseUp drag_end ruler_drag_full_session)))) = 20)"
proof -
  have g: "tool ruler_drag_session = Line \<and> isDrawing ruler_drag_session
      \<and> \<not> isPanning ruler_drag_session \<and> ctx ruler_drag_session = Some (new_canvas 800 600)
      \<and> startPos ruler_drag_session = Some (100, 100) \<and> canvasRef ruler_drag_session
      \<and> trim blank_text = []"
    and gl: "length (history ruler_drag_session) < 20"
    by (simp_all add: ruler_drag_facts blank_text_trim)
  have g2: "tool ruler_drag_full_session = Line \<and> isDrawing ruler_drag_full_session
      \<and> \<not> isPanning ruler_drag_full_session
      \<and> ctx ruler_drag_full_session = Some (new_canvas 800 600)
      \<and> startPos ruler_drag_full_session = Some (100, 100) \<and> canvasRef ruler_drag_full_session
      \<and> trim blank_text = []"
    and gl2: "length (history ruler_drag_full_session) = 20"
    by (simp_all add: ruler_drag_full_facts blank_text_trim)
  have v: "isVisible (textInput (onChange blank_text (handleMouseUp drag_end ruler_drag_session)))"
    using blank_commit_keeps_canvas[where r = ruler_drag_session and e = drag_end
        and v = blank_text and c = "new_canvas 800 600" and p = "(100, 100)"] g
    by blast
  have h: "isVisible (textInput ruler_session)
      \<and> trim (text_value (textInput ruler_session)) = []"
    using v by (simp add: ruler_session_def blank_text_trim)
  from blank_commit_keeps_canvas[where s = ruler_session and r = ruler_drag_session
      and e = drag_end and v = blank_text and c = "new_canvas 800 600" and p = "(100, 100)"]
    blank_commit_keeps_canvas[where r = ruler_drag_full_session
      and e = drag_end and v = blank_text and c = "new_canvas 800 600" and p = "(100, 100)"]
    h g gl g2 gl2
  show ?thesis by blast
qed

subsection \<open>Mouse handlers\<close>

lemma commitText_sel [simp]:
  "isDrawing (commitText s) = isDrawing s"
  "startPos (commitText s) = startPos s"
  "\<not> isVisible (textInput (commitText s))"
  by (simp_all add: commitText_def Let_def split: option.splits)

lemma handleMouseDown_overlay:
  assumes "isVisible (textInput s)" and "tool s \<noteq> Pan" and "button e \<noteq> 1"
    and "ctx s = Some c" and "canvasRef s"
  shows "handleMouseDown e s = commitText s"
  using assms by (simp add: handleMouseDown_def split: prod.splits)

lemma handleMouseDown_stroke:
  assumes "\<not> isVisible (textInput s)" and "tool s = Pen" and "button e \<noteq> 1"
    and "ctx s = Some c" and "canvasRef s"
  shows "isDrawing (handleMouseDown e s)"
  using assms by (simp add: handleMouseDown_def split: prod.splits)

text \<open>C7, as stated, fails: with a text in the open overlay and the pen selected, a click on
  the canvas commits the text and does nothing else, whereas the same click on the session
  with the overlay already committed starts a stroke.\<close>

theorem click_on_open_overlay_starts_nothing:
  "isVisible (textInput typing_session)
   \<and> handleMouseDown demo_click typing_session = commitText typing_session
   \<and> \<not> isDrawing (handleMouseDown demo_click typing_session)
   \<and> isDrawing (handleMouseDown demo_click (commitText typing_session))"
proof -
  have b: "button demo_click \<noteq> 1" by (simp add: demo_click_def)
  have t: "tool typing_session \<noteq> Pan" by (simp add: typing_facts)
  have eq: "handleMouseDown demo_click typing_session = commitText typing_session"
    by (rule handleMouseDown_overlay[OF typing_facts(3) t b typing_facts(1,2)])
  obtain c' where c': "ctx (commitText typing_session) = Some c'"
    using typing_facts by (simp add: commitText_def Let_def)
  have after: "tool (commitText typing_session) = Pen" "canvasRef (commitText typing_session)"
    using typing_facts by (simp_all add: commitText_def Let_def)
  have "isDrawing (handleMouseDown demo_click (commitText typing_session))"
    by (rule handleMouseDown_stroke[OF _ after(1) b c' after(2)]) simp
  then show ?thesis using eq typing_facts by simp
qed

text \<open>C7, amended. A mouse-down while the overlay is open, with a tool other than pan, a
  button other than the middle one and the canvas initialised, commits the overlay and ends
  there: the overlay is closed, no stroke is started and no new overlay is opened. With the
  pan tool or the middle button it starts panning and leaves the overlay as it is.\<close>

theorem mouse_down_on_open_overlay:
  assumes "isVisible (textInput s)"
  shows "(tool s \<noteq> Pan \<and> button e \<noteq> 1 \<and> ctx s \<noteq> None \<and> canvasRef s \<longrightarrow>
            handleMouseDown e s = commitText s
            \<and> \<not> isVisible (textInput (handleMouseDown e s))
            \<and> isDrawing (handleMouseDown e s) = isDrawing s
            \<and> startPos (handleMouseDown e s) = startPos s)
       \<and> (tool s = Pan \<or> button e = 1 \<longrightarrow>
            handleMouseDown e s = s\<lparr>isPanning := True, lastPanPoint := (clientX e, clientY e)\<rparr>)"
proof (intro conjI impI)
  assume "tool s = Pan \<or> button e = 1"
  then show "handleMouseDown e s = s\<lparr>isPanning := True, lastPanPoint := (clientX e, clientY e)\<rparr>"
    by (simp add: handleMouseDown_def)
next
  assume a: "tool s \<noteq> Pan \<and> button e \<noteq> 1 \<and> ctx s \<noteq> None \<and> canvasRef s"
  then obtain c where "ctx s = Some c" by auto
  with a assms have eq: "handleMouseDown e s = commitText s"
    by (simp add: handleMouseDown_overlay)
  show "handleMouseDown e s = commitText s" by (rule eq)
  show "\<not> isVisible (textInput (handleMouseDown e s))" by (simp add: eq)
  show "isDrawing (handleMouseDown e s) = isDrawing s" by (simp add: eq)
  show "startPos (handleMouseDown e s) = startPos s" by (simp add: eq)
qed

theorem mouse_down_on_open_overlay_witness:
  "(isVisible (textInput typing_session)
    \<and> tool typing_session \<noteq> Pan \<and> button demo_click \<noteq> 1 \<and> ctx typing_session \<noteq> None
    \<and> canvasRef typing_session
    \<and> handleMouseDown demo_click typing_session = commitText typing_session
    \<and> \<not> isVisible (textInput (handleMouseDown demo_click typing_session))
    \<and> isDrawing (handleMouseDown demo_click typing_session) = isDrawing typing_session
    \<and> startPos (handleMouseDown demo_click typing_session) = startPos typing_session)
   \<and> (isVisible (textInput pan_typing_session) \<and> tool pan_typing_session = Pan
    \<and> handleMouseDown demo_click pan_typing_session
        = pan_typing_session\<lparr>isPanning := True,
            lastPanPoint := (clientX demo_click, clientY demo_click)\<rparr>)"
proof -
  have h: "isVisible (textInput typing_session)"
    and g: "tool typing_session \<noteq> Pan \<and> button demo_click \<noteq> 1 \<and> ctx typing_session \<noteq> None
      \<and> canvasRef typing_session"
    by (simp_all add: typing_facts demo_click_def)
  have h2: "isVisible (textInput pan_typing_session)"
    and g2: "tool pan_typing_session = Pan"
    by (simp_all add: pan_typing_session_def typing_facts)
  from mouse_down_on_open_overlay[OF h, of demo_click]
    mouse_down_on_open_overlay[OF h2, of demo_click] h g h2 g2
  show ?thesis by blast
qed

lemma stroke_and_pan_facts:
  "isDrawing stroke_and_pan_session"
  "isPanning stroke_and_pan_session"
  "tool stroke_and_pan_session = Pen"
proof -
  let ?s1 = "handleMouseDown demo_click demo_session"
  have b: "button demo_click \<noteq> 1" "button demo_middle_click = 1"
    by (simp_all add: demo_click_def demo_middle_click_def)
  have s1: "isDrawing ?s1" "tool ?s1 = Pen"
    using demo_facts b(1) by (simp_all add: handleMouseDown_def mount_state_def demo_session_eq
        split: prod.splits)
  have s2: "stroke_and_pan_session = ?s1\<lparr>isPanning := True,
      lastPanPoint := (clientX demo_middle_click, clientY demo_middle_click)\<rparr>"
    using b(2) by (simp add: stroke_and_pan_session_def handleMouseDown_def)
  show "isDrawing stroke_and_pan_session" "isPanning stroke_and_pan_session"
    "tool stroke_and_pan_session = Pen"
    using s1 by (simp_all add: s2)
qed

text \<open>C9, as stated, fails: with a pen stroke in progress and the middle button pressed
  during it, the mouse leaving the container ends the panning only; the stroke stays in
  progress and no snapshot is saved.\<close>

theorem leave_during_pan_keeps_stroke:
  "isDrawing stroke_and_pan_session
   \<and> tool stroke_and_pan_session = Pen
   \<and> isDrawing (onMouseLeave demo_click stroke_and_pan_session)
   \<and> history (onMouseLeave demo_click stroke_and_pan_session) = history stroke_and_pan_session"
proof -
  have "onMouseLeave demo_click stroke_and_pan_session
      = stroke_and_pan_session\<lparr>isPanning := False\<rparr>"
    using stroke_and_pan_facts(2) by (simp add: onMouseLeave_def handleMouseUp_def)
  then show ?thesis using stroke_and_pan_facts by simp
qed

text \<open>C9, amended. The container installs \<open>handleMouseUp\<close> for the mouse leaving it as
  well as for the release of the button, so both do the same in every state. For a drawing
  gesture in progress while no panning is active, this ends the gesture; with a tool other
  than the ruler it saves a snapshot of the canvas at the end of the history and empties
  the redo stack. While panning is active it ends the panning and nothing else.\<close>

theorem mouse_leave_is_mouse_up:
  "onMouseLeave e s = onMouseUp e s
   \<and> (isPanning s \<longrightarrow> onMouseLeave e s = s\<lparr>isPanning := False\<rparr>)
   \<and> (isDrawing s \<and> \<not> isPanning s \<and> ctx s = Some c \<and> startPos s = Some p \<longrightarrow>
        \<not> isDrawing (onMouseLeave e s)
        \<and> (tool s \<noteq> Line \<and> canvasRef s \<longrightarrow>
             history (onMouseLeave e s)
               = (if length (history s) < 20 then history s else tl (history s)) @ [surface c]
             \<and> redoStack (onMouseLeave e s) = []))"
proof (intro conjI impI)
  show "onMouseLeave e s = onMouseUp e s"
    by (simp add: onMouseLeave_def onMouseUp_def)
next
  assume "isPanning s"
  then show "onMouseLeave e s = s\<lparr>isPanning := False\<rparr>"
    by (simp add: onMouseLeave_def handleMouseUp_def)
next
  assume a: "isDrawing s \<and> \<not> isPanning s \<and> ctx s = Some c \<and> startPos s = Some p"
  then show "\<not> isDrawing (onMouseLeave e s)"
    by (cases p) (simp add: onMouseLeave_def handleMouseUp_def Let_def split: prod.splits)
  assume b: "tool s \<noteq> Line \<and> canvasRef s"
  have up: "onMouseLeave e s =
      (if tool s = Pen \<or> tool s = Highlighter \<or> tool s = Eraser
       then saveState (s\<lparr>isDrawing := False, ctx := Some (closePath c)\<rparr>)
       else saveState (s\<lparr>isDrawing := False\<rparr>))"
    using a b by (cases p) (simp add: onMouseLeave_def handleMouseUp_def Let_def)
  show "history (onMouseLeave e s)
          = (if length (history s) < 20 then history s else tl (history s)) @ [surface c]"
    using a b by (simp add: up saveState_ready[of _ c] saveState_ready[of _ "closePath c"])
  show "redoStack (onMouseLeave e s) = []"
    using a b by (simp add: up saveState_ready[of _ c] saveState_ready[of _ "closePath c"])
qed

lemma drawing_facts:
  "isDrawing drawing_session" "\<not> isPanning drawing_session"
  "ctx drawing_session = Some (new_canvas 800 600)"
  "startPos drawing_session = Some (10, 10)"
  "tool drawing_session \<noteq> Line" "canvasRef drawing_session"
  by (simp_all add: drawing_session_def demo_facts)

theorem mouse_leave_is_mouse_up_witness:
  "onMouseLeave demo_click drawing_session = onMouseUp demo_click drawing_session
   \<and> isDrawing drawing_session \<and> \<not> isPanning drawing_session
   \<and> ctx drawing_session = Some (new_canvas 800 600)
   \<and> startPos drawing_session = Some (10, 10)
   \<and> \<not> isDrawing (onMouseLeave demo_click drawing_session)
   \<and> tool drawing_session \<noteq> Line \<and> canvasRef drawing_session
   \<and> history (onMouseLeave demo_click drawing_session)
       = (if length (history drawing_session) < 20 then history drawing_session
          else tl (history drawing_session)) @ [surface (new_canvas 800 600)]
   \<and> redoStack (onMouseLeave demo_click drawing_session) = []
   \<and> isPanning stroke_and_pan_session
   \<and> onMouseLeave demo_click stroke_and_pan_session
       = stroke_and_pan_session\<lparr>isPanning := False\<rparr>"
proof -
  have h: "isDrawing drawing_session \<and> \<not> isPanning drawing_session
      \<and> ctx drawing_session = Some (new_canvas 800 600)
      \<and> startPos drawing_session = Some (10, 10)"
    and g: "tool drawing_session \<noteq> Line \<and> canvasRef drawing_session"
    and k: "isPanning stroke_and_pan_session"
    by (simp_all add: drawing_facts stroke_and_pan_facts)
  from mouse_leave_is_mouse_up[of demo_click drawing_session "new_canvas 800 600" "(10, 10)"]
    mouse_leave_is_mouse_up[of demo_click stroke_and_pan_session] h g k
  show ?thesis by blast
qed

subsection \<open>The ruler\<close>

text \<open>Releasing the button at the end of a ruler gesture of 200 pixels opens the overlay at
  the middle of the line with the measurement, and saves no snapshot yet.\<close>

lemma sqrt_40000: "sqrt 40000 = 200"
  by (rule real_sqrt_unique) simp_all

lemma ruler_pos: "getPos drag_end ruler_drag_session = (300, 100)"
  by (simp add: getPos_def ruler_drag_session_def drag_end_def demo_facts demo_container_def)

lemma toFixed1_example: "toFixed1 (100 / 19) = ''5.3''"
  by (simp add: toFixed1_def decimal.simps digit_char_def)

lemma ruler_measurement:
  "textInput (handleMouseUp drag_end ruler_drag_session)
     = \<lparr> isVisible = True, text_x = 200, text_y = 100, text_value = js ''5.3 cm'', rotation = None \<rparr>
   \<and> history (handleMouseUp drag_end ruler_drag_session) = history ruler_drag_session"
proof -
  have f: "ctx ruler_drag_session = Some (new_canvas 800 600)" "isDrawing ruler_drag_session"
    "\<not> isPanning ruler_drag_session" "startPos ruler_drag_session = Some (100, 100)"
    "tool ruler_drag_session = Line"
    by (simp_all add: ruler_drag_session_def demo_facts)
  show ?thesis
    by (simp add: handleMouseUp_def f ruler_pos Let_def sqrt_40000 toFixed1_example js_def)
qed

subsection \<open>Text and export\<close>

text \<open>C10. Committing an overlay with a text that is not blank paints the text twice (the
  outline, then the glyphs), both at alpha 1 and with source-over compositing, whatever
  the opacity and the tool of the session are (the eraser included), and leaves the
  drawing state of the context as it was.\<close>

theorem text_painted_opaque_source_over:
  assumes "ctx s = Some c" and "isVisible (textInput s)"
    and "trim (text_value (textInput s)) \<noteq> []"
  shows "\<exists>c' st1 st2. ctx (commitText s) = Some c'
     \<and> surface c' = surface c @
          [(st1, StrokeText (text_value (textInput s)) (text_x (textInput s)) (text_y (textInput s))),
           (st2, FillText (text_value (textInput s)) (text_x (textInput s)) (text_y (textInput s)))]
     \<and> globalAlpha st1 = 1 \<and> globalCompositeOperation st1 = SourceOver
     \<and> globalAlpha st2 = 1 \<and> globalCompositeOperation st2 = SourceOver
     \<and> style c' = style c"
proof -
  obtain c' where c': "ctx (commitText s) = Some c'"
    using assms by (simp add: commitText_def Let_def)
  have "surface c' = surface c @
          [(st1, StrokeText (text_value (textInput s)) (text_x (textInput s)) (text_y (textInput s))),
           (st2, FillText (text_value (textInput s)) (text_x (textInput s)) (text_y (textInput s)))]
     \<and> globalAlpha st1 = 1 \<and> globalCompositeOperation st1 = SourceOver
     \<and> globalAlpha st2 = 1 \<and> globalCompositeOperation st2 = SourceOver
     \<and> style c' = style c"
    if "st1 = fst (surface c' ! length (surface c))"
      and "st2 = fst (surface c' ! Suc (length (surface c)))"
    for st1 st2
    using assms c' that by (auto simp add: commitText_def Let_def nth_append)
  then show ?thesis using c' by blast
qed

lemma eraser_typing_facts:
  "ctx eraser_typing_session = Some (new_canvas 800 600)"
  "isVisible (textInput eraser_typing_session)"
  "trim (text_value (textInput eraser_typing_session)) \<noteq> []"
  "tool eraser_typing_session = Eraser"
  "opacity eraser_typing_session = 0.5"
  by (simp_all add: eraser_typing_session_def typing_session_def demo_facts trim_def is_space_def
      js_def)

theorem text_painted_opaque_source_over_witness:
  "ctx eraser_typing_session = Some (new_canvas 800 600)
   \<and> isVisible (textInput eraser_typing_session)
   \<and> trim (text_value (textInput eraser_typing_session)) \<noteq> []
   \<and> tool eraser_typing_session = Eraser \<and> opacity eraser_typing_session = 0.5
   \<and> (\<exists>c' st1 st2. ctx (commitText eraser_typing_session) = Some c'
     \<and> surface c' = surface (new_canvas 800 600) @
          [(st1, StrokeText (text_value (textInput eraser_typing_session))
                   (text_x (textInput eraser_typing_session))
                   (text_y (textInput eraser_typing_session))),
           (st2, FillText (text_value (textInput eraser_typing_session))
                   (text_x (textInput eraser_typing_session))
                   (text_y (textInput eraser_typing_session)))]
     \<and> globalAlpha st1 = 1 \<and> globalCompositeOperation st1 = SourceOver
     \<and> globalAlpha st2 = 1 \<and> globalCompositeOperation st2 = SourceOver
     \<and> style c' = style (new_canvas 800 600))"
proof -
  have h: "ctx eraser_typing_session = Some (new_canvas 800 600)"
    "isVisible (textInput eraser_typing_session)"
    "trim (text_value (textInput eraser_typing_session)) \<noteq> []"
    and g: "tool eraser_typing_session = Eraser" "opacity eraser_typing_session = 0.5"
    by (simp_all add: eraser_typing_facts)
  from text_painted_opaque_source_over[OF h] h g show ?thesis by blast
qed

lemma onload_native:
  assumes "containerRef s0 = Some r" and "canvasRef s0" and "onload url w h b s0 = Some s"
  shows "dimensions s = (w, h) \<and> bgImageUrl s = url"
  using assms by (auto simp: onload_def Let_def split: if_splits)

text \<open>C8. The export draws into an offscreen canvas of the stored dimensions, which are the
  natural size of the loaded image: first the image at that size, then the annotation
  canvas on top, and encodes that canvas. Zoom and pan do not enter: the result is the
  same for any two viewports of a session.\<close>

theorem export_ignores_viewport:
  assumes "canvasRef s" and "fst (dimensions s) \<noteq> 0"
  shows "handleSave enc b l a (s\<lparr>zoom := za, pan := pa\<rparr>) = handleSave enc b l a (s\<lparr>zoom := zb, pan := pb\<rparr>)
     \<and> handleSave enc True True a s =
         Some (let dataUrl = enc \<lparr> os_width = fst (dimensions s), os_height = snd (dimensions s),
                   os_ops = [DrawImage (bgImageUrl s) 0 0 (fst (dimensions s)) (snd (dimensions s)),
                             DrawCanvas (content s) 0 0] \<rparr>
               in case a of Download \<Rightarrow> LinkClick dataUrl | Attach \<Rightarrow> OnSave dataUrl (description s))
     \<and> (\<forall>s0 r url w h has2d. containerRef s0 = Some r \<and> canvasRef s0
            \<and> onload url w h has2d s0 = Some s \<longrightarrow> dimensions s = (w, h) \<and> bgImageUrl s = url)"
proof (intro conjI)
  show "handleSave enc b l a (s\<lparr>zoom := za, pan := pa\<rparr>) = handleSave enc b l a (s\<lparr>zoom := zb, pan := pb\<rparr>)"
    by (cases a) (simp_all add: handleSave_def Let_def)
  show "handleSave enc True True a s =
         Some (let dataUrl = enc \<lparr> os_width = fst (dimensions s), os_height = snd (dimensions s),
                   os_ops = [DrawImage (bgImageUrl s) 0 0 (fst (dimensions s)) (snd (dimensions s)),
                             DrawCanvas (content s) 0 0] \<rparr>
               in case a of Download \<Rightarrow> LinkClick dataUrl | Attach \<Rightarrow> OnSave dataUrl (description s))"
    using assms
    by (cases "ctx s"; cases a) (simp_all add: handleSave_def Let_def content_def getImageData_def)
  show "\<forall>s0 r url w h has2d. containerRef s0 = Some r \<and> canvasRef s0
            \<and> onload url w h has2d s0 = Some s \<longrightarrow> dimensions s = (w, h) \<and> bgImageUrl s = url"
    using onload_native by blast
qed

lemma demo_onload:
  "onload ''blob:scan'' 800 600 True (mount_state (Some demo_container) True) = Some demo_session"
  by (simp add: demo_session_def onload_def mount_state_def demo_container_def Let_def)

theorem export_ignores_viewport_witness:
  "canvasRef demo_session \<and> fst (dimensions demo_session) \<noteq> 0
   \<and> handleSave demo_encoder True True Attach (demo_session\<lparr>zoom := 0.3, pan := (0, 0)\<rparr>)
       = handleSave demo_encoder True True Attach (demo_session\<lparr>zoom := 3, pan := (-250, 40)\<rparr>)
   \<and> handleSave demo_encoder True True Attach demo_session =
         Some (let dataUrl = demo_encoder \<lparr> os_width = fst (dimensions demo_session),
                   os_height = snd (dimensions demo_session),
                   os_ops = [DrawImage (bgImageUrl demo_session) 0 0 (fst (dimensions demo_session))
                               (snd (dimensions demo_session)),
                             DrawCanvas (content demo_session) 0 0] \<rparr>
               in case Attach of Download \<Rightarrow> LinkClick dataUrl
                  | Attach \<Rightarrow> OnSave dataUrl (description demo_session))
   \<and> containerRef (mount_state (Some demo_container) True) = Some demo_container
   \<and> canvasRef (mount_state (Some demo_container) True)
   \<and> onload ''blob:scan'' 800 600 True (mount_state (Some demo_container) True) = Some demo_session
   \<and> dimensions demo_session = (800, 600) \<and> bgImageUrl demo_session = ''blob:scan''"
proof -
  have h: "canvasRef demo_session" "fst (dimensions demo_session) \<noteq> 0"
    by (simp_all add: demo_facts)
  have g: "containerRef (mount_state (Some demo_container) True) = Some demo_container
     \<and> canvasRef (mount_state (Some demo_container) True)
     \<and> onload ''blob:scan'' 800 600 True (mount_state (Some demo_container) True) = Some demo_session"
    by (simp add: demo_onload) (simp add: mount_state_def)
  from export_ignores_viewport[OF h, where enc = demo_encoder and b = True and l = True
      and a = Attach
      and za = "0.3" and pa = "(0, 0)" and zb = 3 and pb = "(-250, 40)"] h g
  show ?thesis by blast
qed

end
